theory Spec2Isabelle
  imports Complex_Main "HOL-Library.Stream"
begin

section \<open>Interventions of the epidemic simulator (covasim/interventions.py)\<close>

text \<open>
  A shallow embedding of the module \<^verbatim>\<open>interventions.py\<close>: the abstract class
  \<^verbatim>\<open>Intervention\<close> and its three policies \<^verbatim>\<open>ChangeBeta\<close>, \<^verbatim>\<open>TestNum\<close> and
  \<^verbatim>\<open>TestProp\<close>. Python floats are idealised as real numbers, without rounding
  and without overflow; where the code can produce a float that is not finite, the
  model has a value for it. Exceptions are values of the type \<open>error\<close>, and every
  method takes the objects it mutates and returns them updated.
\<close>

subsection \<open>Exceptions\<close>

datatype error =
    ValueError string
  | IndexError
  | KeyError string
  | NotImplementedError

subsection \<open>Result series\<close>

text \<open>
  Modelled from the spec: the class \<^verbatim>\<open>cv.Result\<close> is not part of the module. It is the
  spec's TimeSeries: a name and a sequence of \<open>npts\<close> floats, all zero at construction,
  read and written by index; an index outside \<open>0 \<le> t < npts\<close> is an \<open>IndexError\<close>. The
  attribute \<^verbatim>\<open>values\<close> is the field \<open>vals\<close>.
\<close>

record Result =
  name :: string
  vals :: "real list"

definition Result_init :: "string \<Rightarrow> nat \<Rightarrow> Result" where
  "Result_init nm npts = \<lparr>name = nm, vals = replicate npts 0\<rparr>"

text \<open>The statement \<^verbatim>\<open>results[key][t] += 1\<close> on a dictionary of result series.\<close>

definition results_incr ::
  "(string \<rightharpoonup> Result) \<Rightarrow> string \<Rightarrow> nat \<Rightarrow> error + (string \<rightharpoonup> Result)" where
  "results_incr rs key t =
     (case rs key of
        None \<Rightarrow> Inl (KeyError key)
      | Some r \<Rightarrow>
          if t < length (vals r)
          then Inr (rs(key \<mapsto> r\<lparr>vals := (vals r)[t := vals r ! t + 1]\<rparr>))
          else Inl IndexError)"

subsection \<open>The simulation and its people\<close>

text \<open>
  Modelled from the spec: the random source. \<^verbatim>\<open>cv.bt(prob)\<close> is a Bernoulli trial on
  the simulation's pseudorandom source; the source is the stream of the uniform draws
  still to come, and a trial succeeds when the next draw is below \<open>prob\<close>.
\<close>

type_synonym rng = "real stream"

definition bt :: "real \<Rightarrow> rng \<Rightarrow> bool \<times> rng" where
  "bt prob r = (shd r < prob, stl r)"

text \<open>
  Modelled from the spec: a person. The attributes are those the interventions read;
  \<open>infectious\<close> is the true infection state that decides a test, and \<open>test_log\<close> keeps
  the calls of \<^verbatim>\<open>test\<close> made on the person (day and sensitivity, the latest first), so
  that being tested can be observed.
\<close>

record Person =
  symptomatic :: bool
  known_contact :: bool
  diagnosed :: bool
  infectious :: bool
  contact_inds :: "nat list"
  test_log :: "(nat \<times> real) list"

text \<open>
  Modelled from the spec: \<^verbatim>\<open>Person.test(day, sensitivity)\<close> may move \<open>diagnosed\<close> to
  true, and does so for an infectious person with probability \<open>sensitivity\<close>. No other
  attribute changes.
\<close>

definition Person_test :: "nat \<Rightarrow> real \<Rightarrow> Person \<Rightarrow> rng \<Rightarrow> Person \<times> rng" where
  "Person_test t sens p r =
     (let q = p\<lparr>test_log := (t, sens) # test_log p\<rparr> in
      if infectious p
      then (let (pos, r') = bt sens r in (if pos then q\<lparr>diagnosed := True\<rparr> else q, r'))
      else (q, r))"

text \<open>
  Modelled from the spec: the simulation. The entry \<open>beta\<close> of its parameter table
  (\<^verbatim>\<open>sim['beta']\<close>), its people in index order (\<^verbatim>\<open>sim.n\<close> is their number) and its
  results (\<^verbatim>\<open>sim.results\<close>).
\<close>

record Sim =
  beta :: real
  people :: "Person list"
  sim_results :: "string \<rightharpoonup> Result"

subsection \<open>The abstract class\<close>

record Intervention =
  results :: "string \<rightharpoonup> Result"

definition Intervention_init :: "Intervention" where
  "Intervention_init = \<lparr>results = Map.empty\<rparr>"

definition Intervention_apply :: "'a Intervention_scheme \<Rightarrow> Sim \<Rightarrow> nat \<Rightarrow> error + unit" where
  "Intervention_apply self sim t = Inl NotImplementedError"

definition Intervention_finalize :: "'a Intervention_scheme \<Rightarrow> Sim \<Rightarrow> 'a Intervention_scheme \<times> Sim" where
  "Intervention_finalize self sim = (self, sim)"

subsection \<open>ChangeBeta\<close>

text \<open>
  An argument of the constructor is a scalar or a sequence; \<^verbatim>\<open>sc.promotetoarray\<close> (of
  the library sciris) makes a one-element array of a scalar and an array of a sequence.
\<close>

datatype 'a arg = Scalar 'a | Sequence "'a list"

fun promotetoarray :: "'a arg \<Rightarrow> 'a list" where
  "promotetoarray (Scalar x) = [x]"
| "promotetoarray (Sequence xs) = xs"

text \<open>The decimal numeral of a length, as an f-string prints it.\<close>

fun str_nat :: "nat \<Rightarrow> string" where
  "str_nat n =
     (if n < 10 then [char_of (48 + n)]
      else str_nat (n div 10) @ [char_of (48 + n mod 10)])"

declare str_nat.simps [simp del]

record ChangeBeta = Intervention +
  days :: "int list"
  changes :: "real list"
  orig_beta :: "real option"

definition ChangeBeta_errormsg :: "nat \<Rightarrow> nat \<Rightarrow> string" where
  "ChangeBeta_errormsg nd nc =
     ''Number of days supplied ('' @ str_nat nd @
     '') does not match number of changes in beta ('' @ str_nat nc @ '')''"

definition ChangeBeta_init :: "int arg \<Rightarrow> real arg \<Rightarrow> error + ChangeBeta" where
  "ChangeBeta_init days_arg changes_arg =
     (let ds = promotetoarray days_arg; cs = promotetoarray changes_arg in
      if length ds \<noteq> length cs
      then Inl (ValueError (ChangeBeta_errormsg (length ds) (length cs)))
      else Inr \<lparr>results = Map.empty, days = ds, changes = cs, orig_beta = None\<rparr>)"

text \<open>
  \<^verbatim>\<open>sc.findinds(days, t)\<close> (of the library sciris) gives the indices of the entries of
  the array that equal \<open>t\<close>, in increasing order.
\<close>

definition findinds :: "int list \<Rightarrow> nat \<Rightarrow> nat list" where
  "findinds ds t = filter (\<lambda>i. ds ! i = int t) [0..<length ds]"

text \<open>
  The loop \<^verbatim>\<open>for ind in inds: new_beta = new_beta * self.changes[ind]\<close>; an index
  beyond the array is an \<open>IndexError\<close>.
\<close>

fun mult_changes :: "real \<Rightarrow> real list \<Rightarrow> nat list \<Rightarrow> error + real" where
  "mult_changes new_beta cs [] = Inr new_beta"
| "mult_changes new_beta cs (ind # inds) =
     (if ind < length cs then mult_changes (new_beta * cs ! ind) cs inds
      else Inl IndexError)"

definition ChangeBeta_apply :: "ChangeBeta \<Rightarrow> Sim \<Rightarrow> nat \<Rightarrow> error + ChangeBeta \<times> Sim" where
  "ChangeBeta_apply self sim t =
     (let ob = (case orig_beta self of None \<Rightarrow> beta sim | Some b \<Rightarrow> b);
          self' = self\<lparr>orig_beta := Some ob\<rparr>;
          inds = findinds (days self') t
      in if inds \<noteq> []
         then (case mult_changes ob (changes self') inds of
                 Inl e \<Rightarrow> Inl e
               | Inr new_beta \<Rightarrow> Inr (self', sim\<lparr>beta := new_beta\<rparr>))
         else Inr (self', sim))"

text \<open>The simulation loop, as far as this intervention sees it: \<open>apply\<close> once per timestep.\<close>

fun ChangeBeta_run :: "ChangeBeta \<Rightarrow> Sim \<Rightarrow> nat list \<Rightarrow> error + ChangeBeta \<times> Sim" where
  "ChangeBeta_run self sim [] = Inr (self, sim)"
| "ChangeBeta_run self sim (t # ts) =
     (case ChangeBeta_apply self sim t of
        Inl e \<Rightarrow> Inl e
      | Inr (self', sim') \<Rightarrow> ChangeBeta_run self' sim' ts)"

text \<open>The baseline the multipliers apply to: the captured value, or the one about to be captured.\<close>

definition ChangeBeta_baseline :: "ChangeBeta \<Rightarrow> Sim \<Rightarrow> real" where
  "ChangeBeta_baseline self sim = (case orig_beta self of None \<Rightarrow> beta sim | Some b \<Rightarrow> b)"

subsection \<open>Cumulative sums\<close>

text \<open>
  \<^verbatim>\<open>pl.cumsum(values)\<close> (of numpy): the running totals of an array, computed in one pass
  with an accumulator.
\<close>

fun cumsum_from :: "real \<Rightarrow> real list \<Rightarrow> real list" where
  "cumsum_from acc [] = []"
| "cumsum_from acc (x # xs) = (acc + x) # cumsum_from (acc + x) xs"

definition cumsum :: "real list \<Rightarrow> real list" where
  "cumsum xs = cumsum_from 0 xs"

subsection \<open>TestNum\<close>

text \<open>
  An entry of \<^verbatim>\<open>daily_tests\<close> is a float: a finite number, which nothing in the
  module restricts (it can be zero, negative or fractional), or a float that is not
  finite (an infinity or a NaN).
\<close>

datatype num_tests = Tests real | NotFinite

record TestNum = Intervention +
  daily_tests :: "num_tests list"
  sympt_test :: real
  trace_test :: real
  sensitivity :: real

definition TestNum_init :: "nat \<Rightarrow> num_tests list \<Rightarrow> real \<Rightarrow> real \<Rightarrow> real \<Rightarrow> TestNum" where
  "TestNum_init npts dt st tt sens =
     \<lparr>results = [''n_diagnoses'' \<mapsto> Result_init ''Number diagnosed'' npts,
                 ''cum_diagnoses'' \<mapsto> Result_init ''Cumulative number diagnosed'' npts],
      daily_tests = dt, sympt_test = st, trace_test = tt, sensitivity = sens\<rparr>"

text \<open>The weight the loop over the people leaves in \<^verbatim>\<open>test_probs[i]\<close>, starting from 1.\<close>

definition test_weight :: "TestNum \<Rightarrow> Person \<Rightarrow> real" where
  "test_weight self person =
     (let w1 = (if symptomatic person then 1 * sympt_test self else 1);
          w2 = (if known_contact person then w1 * trace_test self else w1)
      in if diagnosed person then 0 else w2)"

definition test_weights :: "TestNum \<Rightarrow> Person list \<Rightarrow> real list" where
  "test_weights self ps = map (test_weight self) ps"

text \<open>
  An entry of the array \<^verbatim>\<open>test_probs\<close> after the division: a finite number, an
  infinity or a NaN.
\<close>

datatype pyfloat = Finite real | PosInf | NegInf | NaN

text \<open>
  The division of two floats of a numpy array. It raises nothing: the quotient of a
  positive number by zero is \<open>inf\<close>, of a negative number \<open>-inf\<close>, and of zero by zero
  \<open>nan\<close>.
\<close>

definition float_div :: "real \<Rightarrow> real \<Rightarrow> pyfloat" where
  "float_div w s =
     (if s \<noteq> 0 then Finite (w / s)
      else if 0 < w then PosInf
      else if w < 0 then NegInf
      else NaN)"

text \<open>
  \<^verbatim>\<open>test_probs /= test_probs.sum()\<close>. The source does not guard the division, and
  the division does not stop the call: on a sum of zero every entry of the array is
  \<open>nan\<close> or infinite, and \<open>apply\<close> goes on with that array.
\<close>

definition normalize :: "real list \<Rightarrow> pyfloat list" where
  "normalize ws = map (\<lambda>w. float_div w (sum_list ws)) ws"

text \<open>The comparison \<^verbatim>\<open>p > 0\<close> on floats: true of \<open>inf\<close>, false of \<open>-inf\<close> and of \<open>nan\<close>.\<close>

fun positive :: "pyfloat \<Rightarrow> bool" where
  "positive (Finite x) = (0 < x)"
| "positive PosInf = True"
| "positive NegInf = False"
| "positive NaN = False"

text \<open>The finite weight of a candidate.\<close>

fun mass :: "pyfloat \<Rightarrow> real" where
  "mass (Finite x) = x"
| "mass PosInf = 0"
| "mass NegInf = 0"
| "mass NaN = 0"

text \<open>
  Modelled from the spec: \<^verbatim>\<open>cv.choose_people_weighted(probs, n)\<close> is not part of the
  module. The spec: draw \<open>n\<close> distinct person-indices via weighted sampling without
  replacement using this distribution. The candidates are the indices of positive
  probability. The number of draws is the whole number of tests in \<open>n\<close>, none when \<open>n\<close>
  is negative. Each draw takes one uniform number, picks a candidate and removes it:
  a candidate of infinite weight if there is one, the first of them, and otherwise the
  candidate whose share of the remaining weight the uniform number falls into. The
  drawing ends after the last draw or when no candidate is left; it raises nothing.
\<close>

fun pick :: "real \<Rightarrow> (nat \<times> real) list \<Rightarrow> nat option" where
  "pick u [] = None"
| "pick u [(i, w)] = Some i"
| "pick u ((i, w) # c # cs) = (if u < w then Some i else pick (u - w) (c # cs))"

definition pick_weighted :: "real \<Rightarrow> (nat \<times> pyfloat) list \<Rightarrow> nat option" where
  "pick_weighted x cands =
     (case filter (\<lambda>c. snd c = PosInf) cands of
        c # cs \<Rightarrow> Some (fst c)
      | [] \<Rightarrow> pick (x * sum_list (map (\<lambda>c. mass (snd c)) cands))
                (map (\<lambda>c. (fst c, mass (snd c))) cands))"

fun draw :: "nat \<Rightarrow> (nat \<times> pyfloat) list \<Rightarrow> rng \<Rightarrow> nat list \<times> rng" where
  "draw 0 cands r = ([], r)"
| "draw (Suc n) cands r =
     (case pick_weighted (shd r) cands of
        None \<Rightarrow> ([], r)
      | Some i \<Rightarrow>
          (let (inds, r') = draw n (filter (\<lambda>c. fst c \<noteq> i) cands) (stl r)
           in (i # inds, r')))"

definition choose_people_weighted :: "pyfloat list \<Rightarrow> real \<Rightarrow> rng \<Rightarrow> nat list \<times> rng" where
  "choose_people_weighted probs n r =
     draw (nat \<lfloor>n\<rfloor>) (filter (\<lambda>c. positive (snd c)) (zip [0..<length probs] probs)) r"

text \<open>
  The loop over the drawn indices. Modelled from the spec: \<^verbatim>\<open>sim.get_person(index)\<close>
  is the accessor of the simulation for the person at that index; an index beyond the
  population is an \<open>IndexError\<close>.
\<close>

fun TestNum_tests ::
  "TestNum \<Rightarrow> nat \<Rightarrow> nat list \<Rightarrow> Person list \<Rightarrow> (string \<rightharpoonup> Result) \<Rightarrow> rng \<Rightarrow>
   error + Person list \<times> (string \<rightharpoonup> Result) \<times> rng" where
  "TestNum_tests self t [] ps rs r = Inr (ps, rs, r)"
| "TestNum_tests self t (test_ind # test_inds) ps rs r =
     (if test_ind < length ps
      then (let (person, r') = Person_test t (sensitivity self) (ps ! test_ind) r;
                ps' = ps[test_ind := person]
            in if diagnosed person
               then (case results_incr rs ''n_diagnoses'' t of
                       Inl e \<Rightarrow> Inl e
                     | Inr rs' \<Rightarrow> TestNum_tests self t test_inds ps' rs' r')
               else TestNum_tests self t test_inds ps' rs r')
      else Inl IndexError)"

text \<open>
  \<^verbatim>\<open>TestNum.apply\<close>. The guard \<^verbatim>\<open>not (n_tests and pl.isfinite(n_tests))\<close> ends the
  call for a number of tests that is zero or not finite; every other number, a
  negative or a fractional one too, goes on to the weights, the division and the
  drawing.
\<close>

definition TestNum_apply ::
  "TestNum \<Rightarrow> Sim \<Rightarrow> nat \<Rightarrow> rng \<Rightarrow> error + TestNum \<times> Sim \<times> rng" where
  "TestNum_apply self sim t r =
     (if t < length (daily_tests self)
      then (case daily_tests self ! t of
              NotFinite \<Rightarrow> Inr (self, sim, r)
            | Tests n_tests \<Rightarrow>
                if n_tests = 0 then Inr (self, sim, r)
                else (let test_probs = normalize (test_weights self (people sim));
                          (test_inds, r') = choose_people_weighted test_probs n_tests r
                      in case TestNum_tests self t test_inds (people sim) (results self) r' of
                           Inl e \<Rightarrow> Inl e
                         | Inr (ps, rs, r'') \<Rightarrow>
                             Inr (self\<lparr>results := rs\<rparr>, sim\<lparr>people := ps\<rparr>, r'')))
      else Inr (self, sim, r))"

definition TestNum_finalize :: "TestNum \<Rightarrow> Sim \<Rightarrow> error + TestNum \<times> Sim" where
  "TestNum_finalize self sim =
     (case results self ''n_diagnoses'' of
        None \<Rightarrow> Inl (KeyError ''n_diagnoses'')
      | Some nd \<Rightarrow>
          (case results self ''cum_diagnoses'' of
             None \<Rightarrow> Inl (KeyError ''cum_diagnoses'')
           | Some cd \<Rightarrow>
               (let rs = (results self)(''cum_diagnoses'' \<mapsto> cd\<lparr>vals := cumsum (vals nd)\<rparr>)
                in Inr (self\<lparr>results := rs\<rparr>, sim\<lparr>sim_results := sim_results sim ++ rs\<rparr>))))"

subsection \<open>TestProp\<close>

record TestProp = Intervention +
  symptomatic_prob :: real
  asymptomatic_prob :: real
  trace_prob :: real
  test_sensitivity :: real
  scheduled_tests :: "nat set"

definition TestProp_init :: "nat \<Rightarrow> real \<Rightarrow> real \<Rightarrow> real \<Rightarrow> real \<Rightarrow> TestProp" where
  "TestProp_init npts sp ap tp ts =
     \<lparr>results = [''n_tested'' \<mapsto> Result_init ''Number tested'' npts,
                 ''n_diagnoses'' \<mapsto> Result_init ''Number diagnosed'' npts,
                 ''cum_tested'' \<mapsto> Result_init ''Cumulative number tested'' npts,
                 ''cum_diagnoses'' \<mapsto> Result_init ''Cumulative number diagnosed'' npts],
      symptomatic_prob = sp, asymptomatic_prob = ap, trace_prob = tp, test_sensitivity = ts,
      scheduled_tests = {}\<rparr>"

text \<open>
  The condition of the loop body, with Python's short-circuit evaluation: a scheduled
  person takes no draw, a symptomatic person one draw with \<open>symptomatic_prob\<close>, any
  other person one draw with \<open>asymptomatic_prob\<close>.
\<close>

definition TestProp_selected :: "TestProp \<Rightarrow> nat \<Rightarrow> Person \<Rightarrow> rng \<Rightarrow> bool \<times> rng" where
  "TestProp_selected self i person r =
     (if i \<in> scheduled_tests self then (True, r)
      else if symptomatic person then bt (symptomatic_prob self) r
      else bt (asymptomatic_prob self) r)"

text \<open>The loop over the contacts of a diagnosed person.\<close>

fun TestProp_trace :: "TestProp \<Rightarrow> Person \<Rightarrow> nat list \<Rightarrow> nat set \<Rightarrow> rng \<Rightarrow> nat set \<times> rng" where
  "TestProp_trace self person [] new_scheduled_tests r = (new_scheduled_tests, r)"
| "TestProp_trace self person (idx # idxs) new_scheduled_tests r =
     (if diagnosed person \<and> trace_prob self \<noteq> 0
      then (let (b, r') = bt (trace_prob self) r in
            TestProp_trace self person idxs
              (if b then insert idx new_scheduled_tests else new_scheduled_tests) r')
      else TestProp_trace self person idxs new_scheduled_tests r)"

text \<open>The body of the loop over the people, for the person at index \<open>i\<close>.\<close>

definition TestProp_person ::
  "TestProp \<Rightarrow> nat \<Rightarrow> nat \<Rightarrow> Person \<Rightarrow> (string \<rightharpoonup> Result) \<Rightarrow> nat set \<Rightarrow> rng \<Rightarrow>
   error + Person \<times> (string \<rightharpoonup> Result) \<times> nat set \<times> rng" where
  "TestProp_person self t i person rs new_scheduled_tests r =
     (let (sel, r1) = TestProp_selected self i person r in
      if sel
      then (case results_incr rs ''n_tested'' t of
              Inl e \<Rightarrow> Inl e
            | Inr rs1 \<Rightarrow>
                (let (person', r2) = Person_test t (test_sensitivity self) person r1 in
                 if diagnosed person'
                 then (case results_incr rs1 ''n_diagnoses'' t of
                         Inl e \<Rightarrow> Inl e
                       | Inr rs2 \<Rightarrow>
                           (let (new', r3) = TestProp_trace self person' (contact_inds person')
                                               new_scheduled_tests r2
                            in Inr (person', rs2, new', r3)))
                 else Inr (person', rs1, new_scheduled_tests, r2)))
      else Inr (person, rs, new_scheduled_tests, r1))"

fun TestProp_loop ::
  "TestProp \<Rightarrow> nat \<Rightarrow> nat \<Rightarrow> Person list \<Rightarrow> (string \<rightharpoonup> Result) \<Rightarrow> nat set \<Rightarrow> rng \<Rightarrow>
   error + Person list \<times> (string \<rightharpoonup> Result) \<times> nat set \<times> rng" where
  "TestProp_loop self t i [] rs new_scheduled_tests r = Inr ([], rs, new_scheduled_tests, r)"
| "TestProp_loop self t i (person # ps) rs new_scheduled_tests r =
     (case TestProp_person self t i person rs new_scheduled_tests r of
        Inl e \<Rightarrow> Inl e
      | Inr (person', rs', new', r') \<Rightarrow>
          (case TestProp_loop self t (Suc i) ps rs' new' r' of
             Inl e \<Rightarrow> Inl e
           | Inr (ps', rs'', new'', r'') \<Rightarrow> Inr (person' # ps', rs'', new'', r'')))"

definition TestProp_apply ::
  "TestProp \<Rightarrow> Sim \<Rightarrow> nat \<Rightarrow> rng \<Rightarrow> error + TestProp \<times> Sim \<times> rng" where
  "TestProp_apply self sim t r =
     (case TestProp_loop self t 0 (people sim) (results self) {} r of
        Inl e \<Rightarrow> Inl e
      | Inr (ps, rs, new_scheduled_tests, r') \<Rightarrow>
          Inr (self\<lparr>results := rs, scheduled_tests := new_scheduled_tests\<rparr>,
               sim\<lparr>people := ps\<rparr>, r'))"

definition TestProp_finalize :: "TestProp \<Rightarrow> Sim \<Rightarrow> error + TestProp \<times> Sim" where
  "TestProp_finalize self sim =
     (case results self ''n_tested'' of
        None \<Rightarrow> Inl (KeyError ''n_tested'')
      | Some nt \<Rightarrow>
     (case results self ''cum_tested'' of
        None \<Rightarrow> Inl (KeyError ''cum_tested'')
      | Some ct \<Rightarrow>
     (let rs1 = (results self)(''cum_tested'' \<mapsto> ct\<lparr>vals := cumsum (vals nt)\<rparr>) in
      case rs1 ''n_diagnoses'' of
        None \<Rightarrow> Inl (KeyError ''n_diagnoses'')
      | Some nd \<Rightarrow>
     (case rs1 ''cum_diagnoses'' of
        None \<Rightarrow> Inl (KeyError ''cum_diagnoses'')
      | Some cd \<Rightarrow>
     (let rs2 = rs1(''cum_diagnoses'' \<mapsto> cd\<lparr>vals := cumsum (vals nd)\<rparr>)
      in Inr (self\<lparr>results := rs2\<rparr>, sim\<lparr>sim_results := sim_results sim ++ rs2\<rparr>))))))"

subsection \<open>Well-formed results\<close>

text \<open>
  What the constructors establish and \<open>apply\<close> keeps: the series an intervention
  writes exist and have \<open>npts\<close> entries.
\<close>

definition has_series :: "(string \<rightharpoonup> Result) \<Rightarrow> string \<Rightarrow> nat \<Rightarrow> bool" where
  "has_series rs key npts = (case rs key of None \<Rightarrow> False | Some s \<Rightarrow> length (vals s) = npts)"

definition TestNum_inv :: "nat \<Rightarrow> TestNum \<Rightarrow> bool" where
  "TestNum_inv npts self =
     (has_series (results self) ''n_diagnoses'' npts \<and>
      has_series (results self) ''cum_diagnoses'' npts)"

definition TestProp_inv :: "nat \<Rightarrow> TestProp \<Rightarrow> bool" where
  "TestProp_inv npts self =
     (has_series (results self) ''n_tested'' npts \<and>
      has_series (results self) ''n_diagnoses'' npts \<and>
      has_series (results self) ''cum_tested'' npts \<and>
      has_series (results self) ''cum_diagnoses'' npts)"

text \<open>The value \<^verbatim>\<open>results[key][t]\<close>, for a key and an index that exist.\<close>

definition series_at :: "(string \<rightharpoonup> Result) \<Rightarrow> string \<Rightarrow> nat \<Rightarrow> real" where
  "series_at rs key t = (case rs key of None \<Rightarrow> 0 | Some s \<Rightarrow> vals s ! t)"

subsection \<open>Observing a day of testing\<close>

text \<open>
  With \<open>p\<close> a person before a call of \<open>apply\<close> and \<open>p'\<close> the same person after it:
  the person was tested during the call when the log of tests has grown.
\<close>

definition tested :: "Person \<Rightarrow> Person \<Rightarrow> bool" where
  "tested p p' = (test_log p' \<noteq> test_log p)"

text \<open>The number of people tested during the call, and of those found diagnosed after their test.\<close>

definition count_tested :: "Person list \<Rightarrow> Person list \<Rightarrow> nat" where
  "count_tested ps ps' = length (filter (\<lambda>(p, p'). tested p p') (zip ps ps'))"

definition count_diagnosed :: "Person list \<Rightarrow> Person list \<Rightarrow> nat" where
  "count_diagnosed ps ps' =
     length (filter (\<lambda>(p, p'). tested p p' \<and> diagnosed p') (zip ps ps'))"

text \<open>The contacts of the people tested during the call and found diagnosed after their test.\<close>

definition traced :: "Person list \<Rightarrow> Person list \<Rightarrow> nat set" where
  "traced ps ps' =
     \<Union> (set (map (\<lambda>(p, p'). if tested p p' \<and> diagnosed p' then set (contact_inds p') else {})
                 (zip ps ps')))"

text \<open>
  The indices added to the new scheduled set during a call, that is, the indices
  \<open>idx\<close> for which the statement \<^verbatim>\<open>new_scheduled_tests.add(idx)\<close> is executed. The
  spec: for every contact of a person tested and found diagnosed, independently with
  probability \<open>trace_prob\<close> add that contact's index to the next scheduled set. The
  contacts of one such person take the next draws of the random source, one each, and
  the contacts added are those whose draw is below \<open>trace_prob\<close>.
\<close>

definition trace_hits :: "real \<Rightarrow> nat list \<Rightarrow> rng \<Rightarrow> nat set" where
  "trace_hits prob idxs r =
     set (map fst (filter (\<lambda>(idx, u). u < prob) (zip idxs (stake (length idxs) r))))"

fun TestProp_added :: "TestProp \<Rightarrow> nat \<Rightarrow> nat \<Rightarrow> Person list \<Rightarrow> rng \<Rightarrow> nat set" where
  "TestProp_added self t i [] r = {}"
| "TestProp_added self t i (person # ps) r =
     (let (sel, r1) = TestProp_selected self i person r in
      if sel
      then (let (person', r2) = Person_test t (test_sensitivity self) person r1 in
            if diagnosed person' \<and> trace_prob self \<noteq> 0
            then trace_hits (trace_prob self) (contact_inds person') r2 \<union>
                 TestProp_added self t (Suc i) ps (sdrop (length (contact_inds person')) r2)
            else TestProp_added self t (Suc i) ps r2)
      else TestProp_added self t (Suc i) ps r1)"

text \<open>The total of a series over all days.\<close>

definition series_total :: "(string \<rightharpoonup> Result) \<Rightarrow> string \<Rightarrow> real" where
  "series_total rs key = (case rs key of None \<Rightarrow> 0 | Some s \<Rightarrow> sum_list (vals s))"

subsection \<open>The export to JSON\<close>

text \<open>
  The Python values an attribute of an intervention can hold: \<open>None\<close>, numbers (a
  float that is not finite apart), strings, lists, dictionaries with string keys in
  insertion order, numpy arrays, sets of indices, and instances of a class with their
  attributes.
\<close>

datatype pyval =
    PNone
  | PInt int
  | PFloat real
  | PNotFinite
  | PStr string
  | PList "pyval list"
  | PDict "(string \<times> pyval) list"
  | PNdarray "pyval list"
  | PSet "nat set"
  | PObject string "(string \<times> pyval) list"

text \<open>
  What \<^verbatim>\<open>json.dumps\<close> accepts: \<open>None\<close>, numbers, strings, and lists and dictionaries of
  such values; it raises a \<open>TypeError\<close> on a set, a numpy array or an instance of a
  class.
\<close>

fun json_serializable :: "pyval \<Rightarrow> bool" where
  "json_serializable PNone = True"
| "json_serializable (PInt i) = True"
| "json_serializable (PFloat x) = True"
| "json_serializable PNotFinite = True"
| "json_serializable (PStr s) = True"
| "json_serializable (PList xs) = list_all json_serializable xs"
| "json_serializable (PDict kvs) = list_all json_serializable (map snd kvs)"
| "json_serializable (PNdarray xs) = False"
| "json_serializable (PSet S) = False"
| "json_serializable (PObject c kvs) = False"

text \<open>The assignment \<^verbatim>\<open>d[key] = v\<close> on a dictionary.\<close>

fun dict_set :: "(string \<times> pyval) list \<Rightarrow> string \<Rightarrow> pyval \<Rightarrow> (string \<times> pyval) list" where
  "dict_set [] key v = [(key, v)]"
| "dict_set ((k, w) # d) key v = (if k = key then (k, v) # d else (k, w) # dict_set d key v)"

text \<open>
  \<^verbatim>\<open>Intervention.to_json\<close>: a deep copy of the attribute dictionary of the instance,
  with the name of its class under \<open>InterventionType\<close>. No subclass of the module
  defines a \<^verbatim>\<open>to_json\<close> of its own, so this is the method of all three.
\<close>

definition Intervention_to_json :: "(string \<times> pyval) list \<Rightarrow> string \<Rightarrow> (string \<times> pyval) list" where
  "Intervention_to_json self_dict class_name =
     dict_set self_dict ''InterventionType'' (PStr class_name)"

text \<open>
  The attribute dictionary \<^verbatim>\<open>self.__dict__\<close> of each class, in the order in which the
  constructor assigns the attributes. A result series is an instance of \<^verbatim>\<open>cv.Result\<close>;
  the series of \<^verbatim>\<open>self.results\<close> are listed in the order of their creation.
\<close>

definition Result_object :: "Result \<Rightarrow> pyval" where
  "Result_object s =
     PObject ''Result'' [(''name'', PStr (name s)), (''values'', PNdarray (map PFloat (vals s)))]"

definition results_dict :: "string list \<Rightarrow> (string \<rightharpoonup> Result) \<Rightarrow> pyval" where
  "results_dict keys rs =
     PDict (concat (map (\<lambda>k. case rs k of None \<Rightarrow> [] | Some s \<Rightarrow> [(k, Result_object s)]) keys))"

definition ChangeBeta_dict :: "ChangeBeta \<Rightarrow> (string \<times> pyval) list" where
  "ChangeBeta_dict self =
     [(''results'', results_dict [] (results self)),
      (''days'', PNdarray (map PInt (days self))),
      (''changes'', PNdarray (map PFloat (changes self))),
      (''orig_beta'', (case orig_beta self of None \<Rightarrow> PNone | Some b \<Rightarrow> PFloat b))]"

definition num_tests_val :: "num_tests \<Rightarrow> pyval" where
  "num_tests_val n = (case n of Tests k \<Rightarrow> PFloat k | NotFinite \<Rightarrow> PNotFinite)"

definition TestNum_dict :: "TestNum \<Rightarrow> (string \<times> pyval) list" where
  "TestNum_dict self =
     [(''results'', results_dict [''n_diagnoses'', ''cum_diagnoses''] (results self)),
      (''daily_tests'', PList (map num_tests_val (daily_tests self))),
      (''sympt_test'', PFloat (sympt_test self)),
      (''trace_test'', PFloat (trace_test self)),
      (''sensitivity'', PFloat (sensitivity self))]"

definition TestProp_dict :: "TestProp \<Rightarrow> (string \<times> pyval) list" where
  "TestProp_dict self =
     [(''results'',
         results_dict [''n_tested'', ''n_diagnoses'', ''cum_tested'', ''cum_diagnoses'']
           (results self)),
      (''symptomatic_prob'', PFloat (symptomatic_prob self)),
      (''asymptomatic_prob'', PFloat (asymptomatic_prob self)),
      (''trace_prob'', PFloat (trace_prob self)),
      (''test_sensitivity'', PFloat (test_sensitivity self)),
      (''scheduled_tests'', PSet (scheduled_tests self))]"

definition ChangeBeta_to_json :: "ChangeBeta \<Rightarrow> (string \<times> pyval) list" where
  "ChangeBeta_to_json self = Intervention_to_json (ChangeBeta_dict self) ''ChangeBeta''"

definition TestNum_to_json :: "TestNum \<Rightarrow> (string \<times> pyval) list" where
  "TestNum_to_json self = Intervention_to_json (TestNum_dict self) ''TestNum''"

definition TestProp_to_json :: "TestProp \<Rightarrow> (string \<times> pyval) list" where
  "TestProp_to_json self = Intervention_to_json (TestProp_dict self) ''TestProp''"

text \<open>The parameters of each constructor, as its signature names them.\<close>

definition ChangeBeta_params :: "string list" where
  "ChangeBeta_params = [''days'', ''changes'']"

definition TestNum_params :: "string list" where
  "TestNum_params = [''npts'', ''daily_tests'', ''sympt_test'', ''trace_test'', ''sensitivity'']"

definition TestProp_params :: "string list" where
  "TestProp_params =
     [''npts'', ''symptomatic_prob'', ''asymptomatic_prob'', ''trace_prob'', ''test_sensitivity'']"

subsection \<open>Small populations for the examples\<close>

text \<open>
  Two people: \<open>P\<close> at index 0, infectious and symptomatic, whose one contact is index 1;
  \<open>Q\<close> at index 1, healthy, without symptoms and without contacts. The policy tests a
  symptomatic person with probability 0.9, nobody else by chance, and traces every
  contact; the simulation has three days.
\<close>

definition person_P :: Person where
  "person_P = \<lparr>symptomatic = True, known_contact = False, diagnosed = False,
               infectious = True, contact_inds = [1], test_log = []\<rparr>"

definition person_Q :: Person where
  "person_Q = \<lparr>symptomatic = False, known_contact = False, diagnosed = False,
               infectious = False, contact_inds = [], test_log = []\<rparr>"

definition example_sim :: Sim where
  "example_sim = \<lparr>beta = 1/2, people = [person_P, person_Q], sim_results = Map.empty\<rparr>"

definition example_TestProp :: TestProp where
  "example_TestProp = TestProp_init 3 (9/10) 0 1 1"

text \<open>Three draws of 0.5, then 0.95 for ever.\<close>

definition example_rng :: rng where
  "example_rng = (1/2) ## (1/2) ## (1/2) ## sconst (19/20)"

text \<open>
  A second population: \<open>P\<close> as before and \<open>R\<close> at index 1, infectious, without
  symptoms, whose one contact is \<open>P\<close>.
\<close>

definition person_R :: Person where
  "person_R = \<lparr>symptomatic = False, known_contact = False, diagnosed = False,
               infectious = True, contact_inds = [0], test_log = []\<rparr>"

definition example_sim2 :: Sim where
  "example_sim2 = \<lparr>beta = 1/2, people = [person_P, person_R], sim_results = Map.empty\<rparr>"





text \<open>
  A policy that traces a contact with probability 0.5, at a call that finds both
  indices of the first population in its scheduled set.
\<close>

definition example_TestProp_half :: TestProp where
  "example_TestProp_half = (TestProp_init 3 (9/10) 0 (1/2) 1) \<lparr>scheduled_tests := {0, 1}\<rparr>"

section \<open>Properties\<close>

subsection \<open>ChangeBeta: the schedule\<close>

lemma findinds_set: "set (findinds ds t) = {i. i < length ds \<and> ds ! i = int t}"
  by (auto simp: findinds_def)

lemma findinds_distinct: "distinct (findinds ds t)"
  by (simp add: findinds_def)

lemma findinds_nonempty: "findinds ds t \<noteq> [] \<longleftrightarrow> (\<exists>i<length ds. ds ! i = int t)"
proof -
  have "findinds ds t \<noteq> [] \<longleftrightarrow> set (findinds ds t) \<noteq> {}" by simp
  also have "\<dots> \<longleftrightarrow> (\<exists>i<length ds. ds ! i = int t)"
    unfolding findinds_set by blast
  finally show ?thesis .
qed

lemma mult_changes_prod_list:
  "\<forall>i\<in>set inds. i < length cs \<Longrightarrow>
   mult_changes b cs inds = Inr (b * prod_list (map ((!) cs) inds))"
  by (induction inds arbitrary: b) (simp_all add: mult.assoc)

lemma mult_changes_findinds:
  assumes "length ds = length cs"
  shows "mult_changes b cs (findinds ds t) =
         Inr (b * (\<Prod>i\<in>{i. i < length ds \<and> ds ! i = int t}. cs ! i))"
proof -
  have "\<forall>i\<in>set (findinds ds t). i < length cs"
    using assms by (simp add: findinds_set)
  then have "mult_changes b cs (findinds ds t) = Inr (b * prod_list (map ((!) cs) (findinds ds t)))"
    by (rule mult_changes_prod_list)
  moreover have "prod_list (map ((!) cs) (findinds ds t)) = prod ((!) cs) (set (findinds ds t))"
    by (simp add: prod.distinct_set_conv_list findinds_distinct)
  ultimately show ?thesis by (simp add: findinds_set)
qed

lemma ChangeBeta_apply_value:
  assumes "length (days cb) = length (changes cb)"
  shows "\<exists>cb' sim'. ChangeBeta_apply cb sim t = Inr (cb', sim') \<and>
           days cb' = days cb \<and> changes cb' = changes cb \<and>
           orig_beta cb' = Some (ChangeBeta_baseline cb sim) \<and>
           beta sim' = (if \<exists>i<length (days cb). days cb ! i = int t
                        then ChangeBeta_baseline cb sim *
                             (\<Prod>i\<in>{i. i < length (days cb) \<and> days cb ! i = int t}. changes cb ! i)
                        else beta sim)"
  using assms
  by (auto simp: ChangeBeta_apply_def Let_def ChangeBeta_baseline_def findinds_nonempty
      mult_changes_findinds)

lemma ChangeBeta_run_baseline:
  assumes "length (days cb) = length (changes cb)"
  shows "\<exists>cb' sim'. ChangeBeta_run cb sim ts = Inr (cb', sim') \<and>
           days cb' = days cb \<and> changes cb' = changes cb \<and>
           ChangeBeta_baseline cb' sim' = ChangeBeta_baseline cb sim"
  using assms
proof (induction ts arbitrary: cb sim)
  case Nil
  then show ?case by simp
next
  case (Cons t ts)
  from ChangeBeta_apply_value [OF Cons.prems, of sim t]
  obtain cb1 sim1 where a: "ChangeBeta_apply cb sim t = Inr (cb1, sim1)"
    and d: "days cb1 = days cb" and c: "changes cb1 = changes cb"
    and o: "orig_beta cb1 = Some (ChangeBeta_baseline cb sim)"
    by blast
  have len: "length (days cb1) = length (changes cb1)" using d c Cons.prems by simp
  from Cons.IH [OF len, of sim1]
  obtain cb2 sim2 where r: "ChangeBeta_run cb1 sim1 ts = Inr (cb2, sim2)"
    and d2: "days cb2 = days cb1" and c2: "changes cb2 = changes cb1"
    and b2: "ChangeBeta_baseline cb2 sim2 = ChangeBeta_baseline cb1 sim1"
    by blast
  have "ChangeBeta_baseline cb1 sim1 = ChangeBeta_baseline cb sim"
    using o by (simp add: ChangeBeta_baseline_def)
  with a r d d2 c c2 b2 show ?case by simp
qed

lemma ChangeBeta_init_Inr:
  "ChangeBeta_init d c = Inr cb \<Longrightarrow>
   length (days cb) = length (changes cb) \<and> orig_beta cb = None \<and>
   days cb = promotetoarray d \<and> changes cb = promotetoarray c"
  by (auto simp: ChangeBeta_init_def Let_def split: if_splits)

text \<open>
  Claim C1. Take an intervention that the constructor accepted (its two arrays have the
  same length) and run \<open>apply\<close> on any timesteps \<open>ts\<close>, then on \<open>t\<close>. Every call
  returns, the captured baseline is the simulation's beta at the first call, and after
  the call for \<open>t\<close> beta is that baseline times the product of \<open>changes[i]\<close> over the
  indices \<open>i\<close> with \<open>days[i] = t\<close> when there is such an index, whatever the earlier
  calls made of beta; with no such index the call leaves beta as it found it.
\<close>

theorem ChangeBeta_apply_determinism:
  assumes "ChangeBeta_init d c = Inr cb0"
  shows "\<exists>cb1 sim1 cb2 sim2.
     ChangeBeta_run cb0 sim0 ts = Inr (cb1, sim1) \<and>
     ChangeBeta_apply cb1 sim1 t = Inr (cb2, sim2) \<and>
     orig_beta cb2 = Some (beta sim0) \<and>
     beta sim2 =
       (if \<exists>i<length (days cb0). days cb0 ! i = int t
        then beta sim0 * (\<Prod>i\<in>{i. i < length (days cb0) \<and> days cb0 ! i = int t}. changes cb0 ! i)
        else beta sim1)"
proof -
  from ChangeBeta_init_Inr [OF assms]
  have len: "length (days cb0) = length (changes cb0)" and none: "orig_beta cb0 = None"
    by auto
  from ChangeBeta_run_baseline [OF len, of sim0 ts]
  obtain cb1 sim1 where r: "ChangeBeta_run cb0 sim0 ts = Inr (cb1, sim1)"
    and d: "days cb1 = days cb0" and c: "changes cb1 = changes cb0"
    and b: "ChangeBeta_baseline cb1 sim1 = ChangeBeta_baseline cb0 sim0"
    by blast
  have b0: "ChangeBeta_baseline cb1 sim1 = beta sim0"
    using b none by (simp add: ChangeBeta_baseline_def)
  have len1: "length (days cb1) = length (changes cb1)" using d c len by simp
  from ChangeBeta_apply_value [OF len1, of sim1 t]
  obtain cb2 sim2 where a: "ChangeBeta_apply cb1 sim1 t = Inr (cb2, sim2)"
    and o: "orig_beta cb2 = Some (ChangeBeta_baseline cb1 sim1)"
    and v: "beta sim2 = (if \<exists>i<length (days cb1). days cb1 ! i = int t
                        then ChangeBeta_baseline cb1 sim1 *
                             (\<Prod>i\<in>{i. i < length (days cb1) \<and> days cb1 ! i = int t}. changes cb1 ! i)
                        else beta sim1)"
    by blast
  show ?thesis using r a o v b0 d c by auto
qed

lemma ChangeBeta_schedule_example: "{i. i < 2 \<and> [14, 28::int] ! i = 28} = {1::nat}"
  by (auto simp: less_2_cases_iff)

theorem ChangeBeta_apply_determinism_witness:
  "\<exists>cb0 cb1 sim1 cb2 sim2.
     ChangeBeta_init (Sequence [14, 28]) (Sequence [7/10, 1]) = Inr cb0 \<and>
     ChangeBeta_run cb0 \<lparr>beta = 1/2, people = [], sim_results = Map.empty\<rparr> [14] = Inr (cb1, sim1) \<and>
     beta sim1 = 7/20 \<and>
     ChangeBeta_apply cb1 sim1 28 = Inr (cb2, sim2) \<and>
     orig_beta cb2 = Some (1/2) \<and> beta sim2 = 1/2"
proof -
  let ?cb0 = "\<lparr>results = Map.empty, days = [14, 28], changes = [7/10, 1], orig_beta = None\<rparr>"
  let ?sim0 = "\<lparr>beta = 1/2, people = [], sim_results = Map.empty\<rparr>"
  have init: "ChangeBeta_init (Sequence [14, 28]) (Sequence [7/10, 1]) = Inr ?cb0"
    by (simp add: ChangeBeta_init_def)
  have ex: "\<exists>i<length (days ?cb0). days ?cb0 ! i = int 28"
    by (rule exI [of _ 1]) simp
  have pr: "(\<Prod>i\<in>{i. i < length (days ?cb0) \<and> days ?cb0 ! i = int 28}. changes ?cb0 ! i) = 1"
    using ChangeBeta_schedule_example by (simp add: numeral_2_eq_2)
  from ChangeBeta_apply_determinism [OF init, of ?sim0 "[14]" 28]
  obtain cb1 sim1 cb2 sim2 where
    r: "ChangeBeta_run ?cb0 ?sim0 [14] = Inr (cb1, sim1)" and
    a: "ChangeBeta_apply cb1 sim1 28 = Inr (cb2, sim2)" and
    o: "orig_beta cb2 = Some (beta ?sim0)" and
    v: "beta sim2 =
       (if \<exists>i<length (days ?cb0). days ?cb0 ! i = int 28
        then beta ?sim0 * (\<Prod>i\<in>{i. i < length (days ?cb0) \<and> days ?cb0 ! i = int 28}. changes ?cb0 ! i)
        else beta sim1)"
    by blast
  from v have v': "beta sim2 = 1/2" unfolding pr if_P [OF ex] by simp
  from o have o': "orig_beta cb2 = Some (1/2)" by simp
  have "ChangeBeta_run ?cb0 ?sim0 [14] =
        Inr (?cb0\<lparr>orig_beta := Some (1/2)\<rparr>, ?sim0\<lparr>beta := 7/20\<rparr>)"
    by (simp add: ChangeBeta_apply_def findinds_def upt_rec [of 0] upt_rec [of 1] upt_rec [of 2] Let_def)
  with r have "beta sim1 = 7/20" by simp
  with init r a o' v' show ?thesis by blast
qed

subsection \<open>ChangeBeta: the constructor\<close>

lemma digit_inj:
  "m < 10 \<Longrightarrow> n < 10 \<Longrightarrow> (char_of (48 + m) :: char) = char_of (48 + n) \<Longrightarrow> m = (n::nat)"
  by (simp add: char_of_eq_iff take_bit_eq_mod)

lemma digit_not_paren: "d < 10 \<Longrightarrow> (char_of (48 + d :: nat) :: char) \<noteq> CHR '')''"
proof
  assume d: "d < 10" and "(char_of (48 + d) :: char) = CHR '')''"
  then have "of_char (char_of (48 + d) :: char) = (of_char (CHR '')'') :: nat)" by simp
  with d show False by (simp add: of_char_of)
qed

lemma str_nat_small: "n < 10 \<Longrightarrow> str_nat n = [char_of (48 + n)]"
  by (subst str_nat.simps) simp

lemma str_nat_large:
  "\<not> n < 10 \<Longrightarrow> str_nat n = str_nat (n div 10) @ [char_of (48 + n mod 10)]"
  by (subst str_nat.simps) simp

lemma str_nat_nonempty: "str_nat n \<noteq> []"
  by (cases "n < 10") (simp_all add: str_nat_small str_nat_large)

lemma str_nat_length_large: "\<not> n < 10 \<Longrightarrow> 2 \<le> length (str_nat n)"
  using str_nat_nonempty [of "n div 10"]
  by (simp add: str_nat_large Suc_le_eq)

lemma str_nat_inj: "str_nat m = str_nat n \<Longrightarrow> m = n"
proof (induction m arbitrary: n rule: str_nat.induct)
  case (1 m)
  show ?case
  proof (cases "m < 10")
    case m: True
    show ?thesis
    proof (cases "n < 10")
      case True
      with m "1.prems" show ?thesis
        by (simp add: str_nat_small digit_inj)
    next
      case False
      have "length (str_nat m) = 1" using m by (simp add: str_nat_small)
      with str_nat_length_large [OF False] "1.prems" show ?thesis by simp
    qed
  next
    case m: False
    show ?thesis
    proof (cases "n < 10")
      case True
      have "length (str_nat n) = 1" using True by (simp add: str_nat_small)
      with str_nat_length_large [OF m] "1.prems" show ?thesis by simp
    next
      case False
      from "1.prems" have "str_nat (m div 10) @ [char_of (48 + m mod 10)] =
          str_nat (n div 10) @ [char_of (48 + n mod 10)]"
        by (simp add: str_nat_large m False)
      then have a: "str_nat (m div 10) = str_nat (n div 10)"
        and b: "(char_of (48 + m mod 10) :: char) = char_of (48 + n mod 10)" by simp_all
      from "1.IH" [OF m a] have "m div 10 = n div 10" .
      moreover from b have "m mod 10 = n mod 10" by (intro digit_inj) simp_all
      ultimately show ?thesis by (metis div_mult_mod_eq)
    qed
  qed
qed

lemma str_nat_no_paren: "c \<in> set (str_nat n) \<Longrightarrow> c \<noteq> CHR '')''"
proof (induction n rule: str_nat.induct)
  case (1 n)
  show ?case
  proof (cases "n < 10")
    case True
    with "1.prems" show ?thesis by (simp add: str_nat_small digit_not_paren)
  next
    case False
    from "1.prems" have "c \<in> set (str_nat (n div 10)) \<or> c = char_of (48 + n mod 10)"
      by (auto simp: str_nat_large False)
    then show ?thesis
    proof
      assume "c \<in> set (str_nat (n div 10))"
      with "1.IH" [OF False] show ?thesis .
    next
      assume "c = char_of (48 + n mod 10)"
      then show ?thesis by (simp add: digit_not_paren)
    qed
  qed
qed

lemma append_sep_inj:
  assumes "\<forall>c\<in>set s. c \<noteq> x" and "\<forall>c\<in>set s'. c \<noteq> x"
    and eq: "s @ x # r = s' @ x # r'"
  shows "s = s' \<and> r = r'"
proof -
  have "takeWhile (\<lambda>c. c \<noteq> x) (s @ x # r) = s"
    using assms(1) by (simp add: takeWhile_tail)
  moreover have "takeWhile (\<lambda>c. c \<noteq> x) (s' @ x # r') = s'"
    using assms(2) by (simp add: takeWhile_tail)
  ultimately have "s = s'" using eq by simp
  with eq show ?thesis by simp
qed

lemma ChangeBeta_errormsg_inj:
  assumes "ChangeBeta_errormsg a b = ChangeBeta_errormsg a' b'"
  shows "a = a' \<and> b = b'"
proof -
  let ?M = "'' does not match number of changes in beta (''"
  from assms have e1: "str_nat a @ CHR '')'' # (?M @ str_nat b @ '')'') =
      str_nat a' @ CHR '')'' # (?M @ str_nat b' @ '')'')"
    by (simp add: ChangeBeta_errormsg_def)
  have n: "\<And>k. \<forall>c\<in>set (str_nat k). c \<noteq> CHR '')''"
    using str_nat_no_paren by blast
  from append_sep_inj [OF n n e1]
  have sa: "str_nat a = str_nat a'" and "?M @ str_nat b @ '')'' = ?M @ str_nat b' @ '')''"
    by simp_all
  then have "str_nat b = str_nat b'" by simp
  with sa show ?thesis by (simp add: str_nat_inj)
qed

text \<open>
  Claim C5. For every pair of arguments, each a scalar or a sequence, the constructor
  raises if and only if the two promoted arrays differ in length; what it raises is
  the \<open>ValueError\<close> whose message holds the decimal numerals of both lengths, and the
  two lengths can be read back from the message (two messages are equal only for the
  same pair of lengths). On equal lengths it returns the intervention, with the two
  arrays and no captured baseline, before any call of \<open>apply\<close>.
\<close>

theorem ChangeBeta_init_error:
  "((\<exists>e. ChangeBeta_init d c = Inl e) =
      (length (promotetoarray d) \<noteq> length (promotetoarray c))) \<and>
   (\<forall>e. ChangeBeta_init d c = Inl e \<longrightarrow>
      e = ValueError (''Number of days supplied ('' @ str_nat (length (promotetoarray d)) @
            '') does not match number of changes in beta ('' @
            str_nat (length (promotetoarray c)) @ '')'')) \<and>
   (\<forall>m n. ChangeBeta_init d c = Inl (ValueError (ChangeBeta_errormsg m n)) \<longrightarrow>
      m = length (promotetoarray d) \<and> n = length (promotetoarray c)) \<and>
   ((length (promotetoarray d) = length (promotetoarray c)) =
      (ChangeBeta_init d c =
         Inr \<lparr>results = Map.empty, days = promotetoarray d, changes = promotetoarray c,
              orig_beta = None\<rparr>))"
proof (cases "length (promotetoarray d) = length (promotetoarray c)")
  case True
  then show ?thesis by (simp add: ChangeBeta_init_def)
next
  case False
  then have i: "ChangeBeta_init d c =
      Inl (ValueError (ChangeBeta_errormsg (length (promotetoarray d)) (length (promotetoarray c))))"
    by (simp add: ChangeBeta_init_def)
  have "\<forall>m n. ChangeBeta_init d c = Inl (ValueError (ChangeBeta_errormsg m n)) \<longrightarrow>
      m = length (promotetoarray d) \<and> n = length (promotetoarray c)"
    unfolding i using ChangeBeta_errormsg_inj by auto
  moreover have "\<forall>e. ChangeBeta_init d c = Inl e \<longrightarrow>
      e = ValueError (''Number of days supplied ('' @ str_nat (length (promotetoarray d)) @
            '') does not match number of changes in beta ('' @
            str_nat (length (promotetoarray c)) @ '')'')"
    unfolding i by (auto simp: ChangeBeta_errormsg_def)
  ultimately show ?thesis using False i by simp
qed

theorem ChangeBeta_init_error_witness:
  "ChangeBeta_init (Sequence [1, 2]) (Sequence [1/2]) =
     Inl (ValueError ''Number of days supplied (2) does not match number of changes in beta (1)'') \<and>
   ChangeBeta_init (Scalar 25) (Scalar (3/10)) =
     Inr \<lparr>results = Map.empty, days = [25], changes = [3/10], orig_beta = None\<rparr>"
proof -
  have s: "str_nat (Suc (Suc 0)) = ''2''" "str_nat (Suc 0) = ''1''"
    by code_simp+
  note t1 = ChangeBeta_init_error [of "Sequence [1, 2]" "Sequence [1/2]"]
  from t1 [THEN conjunct1]
  have "\<exists>e. ChangeBeta_init (Sequence [1, 2]) (Sequence [1/2]) = Inl e" by simp
  then obtain e where e: "ChangeBeta_init (Sequence [1, 2]) (Sequence [1/2]) = Inl e" ..
  from t1 [THEN conjunct2, THEN conjunct1, rule_format, OF e]
  have "e = ValueError ''Number of days supplied (2) does not match number of changes in beta (1)''"
    by (simp add: s)
  with e have a: "ChangeBeta_init (Sequence [1, 2]) (Sequence [1/2]) =
     Inl (ValueError ''Number of days supplied (2) does not match number of changes in beta (1)'')"
    by simp
  note t2 = ChangeBeta_init_error [of "Scalar 25" "Scalar (3/10)"]
  from t2 [THEN conjunct2, THEN conjunct2, THEN conjunct2]
  have b: "ChangeBeta_init (Scalar 25) (Scalar (3/10)) =
     Inr \<lparr>results = Map.empty, days = [25], changes = [3/10], orig_beta = None\<rparr>" by simp
  from a b show ?thesis ..
qed

subsection \<open>Cumulative series\<close>

lemma cumsum_from_length: "length (cumsum_from acc xs) = length xs"
  by (induction xs arbitrary: acc) simp_all

lemma cumsum_from_nth:
  "t < length xs \<Longrightarrow> cumsum_from acc xs ! t = acc + sum_list (take (Suc t) xs)"
proof (induction xs arbitrary: acc t)
  case Nil
  then show ?case by simp
next
  case (Cons x xs)
  show ?case
  proof (cases t)
    case 0
    then show ?thesis by simp
  next
    case (Suc k)
    with Cons.prems have "k < length xs" by simp
    from Cons.IH [OF this, of "acc + x"] Suc show ?thesis by simp
  qed
qed

lemma sum_list_take_nth:
  "t < length xs \<Longrightarrow> sum_list (take (Suc t) xs) = (\<Sum>k\<le>t. xs ! k)" for xs :: "real list"
proof -
  assume t: "t < length xs"
  have "sum_list (take (Suc t) xs) = (\<Sum>k = 0..<length (take (Suc t) xs). take (Suc t) xs ! k)"
    by (rule sum_list_sum_nth)
  also have "\<dots> = (\<Sum>k = 0..<Suc t. take (Suc t) xs ! k)"
    using t by (simp add: min_absorb2 Suc_leI)
  also have "\<dots> = (\<Sum>k = 0..<Suc t. xs ! k)"
    by (rule sum.cong) simp_all
  also have "{0..<Suc t} = {..t}" by auto
  finally show ?thesis .
qed

lemma cumsum_length: "length (cumsum xs) = length xs"
  by (simp add: cumsum_def cumsum_from_length)

lemma cumsum_nth: "t < length xs \<Longrightarrow> cumsum xs ! t = (\<Sum>k\<le>t. xs ! k)"
  by (simp add: cumsum_def cumsum_from_nth sum_list_take_nth del: take_Suc_Cons)

lemma has_seriesE:
  assumes "has_series rs key npts"
  obtains s where "rs key = Some s" and "length (vals s) = npts"
  using assms by (auto simp: has_series_def split: option.splits)


lemma TestProp_init_inv: "TestProp_inv npts (TestProp_init npts sp ap tp ts)"
  by (simp add: TestProp_inv_def TestProp_init_def has_series_def Result_init_def)

lemma TestNum_finalize_cumulative:
  assumes "TestNum_inv npts tn"
  shows "\<exists>tn' sim' nd cd.
     TestNum_finalize tn sim = Inr (tn', sim') \<and>
     results tn ''n_diagnoses'' = Some nd \<and>
     results tn' ''n_diagnoses'' = Some nd \<and>
     results tn' ''cum_diagnoses'' = Some cd \<and>
     sim_results sim' ''n_diagnoses'' = Some nd \<and>
     sim_results sim' ''cum_diagnoses'' = Some cd \<and>
     length (vals cd) = npts \<and>
     (\<forall>t<npts. vals cd ! t = (\<Sum>k\<le>t. vals nd ! k))"
proof -
  from assms obtain nd where nd: "results tn ''n_diagnoses'' = Some nd" "length (vals nd) = npts"
    unfolding TestNum_inv_def by (auto elim: has_seriesE)
  from assms obtain cd where cd: "results tn ''cum_diagnoses'' = Some cd"
    unfolding TestNum_inv_def by (auto elim: has_seriesE)
  show ?thesis
    using nd cd
    by (simp add: TestNum_finalize_def Let_def cumsum_length cumsum_nth)
qed

lemma TestProp_finalize_cumulative:
  assumes "TestProp_inv npts tp"
  shows "\<exists>tp' sim' nt ct nd cd.
     TestProp_finalize tp sim = Inr (tp', sim') \<and>
     results tp ''n_tested'' = Some nt \<and>
     results tp ''n_diagnoses'' = Some nd \<and>
     results tp' ''n_tested'' = Some nt \<and>
     results tp' ''cum_tested'' = Some ct \<and>
     results tp' ''n_diagnoses'' = Some nd \<and>
     results tp' ''cum_diagnoses'' = Some cd \<and>
     sim_results sim' ''n_tested'' = Some nt \<and>
     sim_results sim' ''cum_tested'' = Some ct \<and>
     sim_results sim' ''n_diagnoses'' = Some nd \<and>
     sim_results sim' ''cum_diagnoses'' = Some cd \<and>
     length (vals ct) = npts \<and> length (vals cd) = npts \<and>
     (\<forall>t<npts. vals ct ! t = (\<Sum>k\<le>t. vals nt ! k)) \<and>
     (\<forall>t<npts. vals cd ! t = (\<Sum>k\<le>t. vals nd ! k))"
proof -
  from assms obtain nt where nt: "results tp ''n_tested'' = Some nt" "length (vals nt) = npts"
    unfolding TestProp_inv_def by (auto elim: has_seriesE)
  from assms obtain nd where nd: "results tp ''n_diagnoses'' = Some nd" "length (vals nd) = npts"
    unfolding TestProp_inv_def by (auto elim: has_seriesE)
  from assms obtain ct where ct: "results tp ''cum_tested'' = Some ct"
    unfolding TestProp_inv_def by (auto elim: has_seriesE)
  from assms obtain cd where cd: "results tp ''cum_diagnoses'' = Some cd"
    unfolding TestProp_inv_def by (auto elim: has_seriesE)
  show ?thesis
    using nt nd ct cd
    by (simp add: TestProp_finalize_def Let_def cumsum_length cumsum_nth)
qed

text \<open>
  Claim C4. Let an intervention hold its series with \<open>npts\<close> entries each, as its
  constructor makes them and \<open>apply\<close> keeps them. Then \<open>finalize\<close> returns, and
  afterwards both the intervention's results and the simulation's results hold, for
  TestNum, \<open>n_diagnoses\<close> as it was and a \<open>cum_diagnoses\<close> of \<open>npts\<close> entries whose
  entry \<open>t\<close> is the sum of \<open>n_diagnoses[0..t]\<close>, and for TestProp the same and also
  \<open>n_tested\<close> with \<open>cum_tested\<close>.
\<close>

theorem finalize_cumulative:
  "(TestNum_inv npts tn \<longrightarrow>
     (\<exists>tn' sim' nd cd.
        TestNum_finalize tn sim = Inr (tn', sim') \<and>
        results tn ''n_diagnoses'' = Some nd \<and>
        results tn' ''n_diagnoses'' = Some nd \<and>
        results tn' ''cum_diagnoses'' = Some cd \<and>
        sim_results sim' ''n_diagnoses'' = Some nd \<and>
        sim_results sim' ''cum_diagnoses'' = Some cd \<and>
        length (vals cd) = npts \<and>
        (\<forall>t<npts. vals cd ! t = (\<Sum>k\<le>t. vals nd ! k)))) \<and>
   (TestProp_inv npts tp \<longrightarrow>
     (\<exists>tp' sim' nt ct nd cd.
        TestProp_finalize tp sim = Inr (tp', sim') \<and>
        results tp ''n_tested'' = Some nt \<and>
        results tp ''n_diagnoses'' = Some nd \<and>
        results tp' ''n_tested'' = Some nt \<and>
        results tp' ''cum_tested'' = Some ct \<and>
        results tp' ''n_diagnoses'' = Some nd \<and>
        results tp' ''cum_diagnoses'' = Some cd \<and>
        sim_results sim' ''n_tested'' = Some nt \<and>
        sim_results sim' ''cum_tested'' = Some ct \<and>
        sim_results sim' ''n_diagnoses'' = Some nd \<and>
        sim_results sim' ''cum_diagnoses'' = Some cd \<and>
        length (vals ct) = npts \<and> length (vals cd) = npts \<and>
        (\<forall>t<npts. vals ct ! t = (\<Sum>k\<le>t. vals nt ! k)) \<and>
        (\<forall>t<npts. vals cd ! t = (\<Sum>k\<le>t. vals nd ! k))))"
  using TestNum_finalize_cumulative [of npts tn sim] TestProp_finalize_cumulative [of npts tp sim]
  by blast

theorem finalize_cumulative_witness:
  "TestNum_inv 3 ((TestNum_init 3 [] 100 1 1)
      \<lparr>results := [''n_diagnoses'' \<mapsto> \<lparr>name = ''Number diagnosed'', vals = [1, 0, 2]\<rparr>,
                   ''cum_diagnoses'' \<mapsto> Result_init ''Cumulative number diagnosed'' 3]\<rparr>) \<and>
   TestProp_inv 3 ((TestProp_init 3 (9/10) (1/100) 1 1)
      \<lparr>results := [''n_tested'' \<mapsto> \<lparr>name = ''Number tested'', vals = [2, 3, 4]\<rparr>,
                   ''n_diagnoses'' \<mapsto> \<lparr>name = ''Number diagnosed'', vals = [1, 0, 2]\<rparr>,
                   ''cum_tested'' \<mapsto> Result_init ''Cumulative number tested'' 3,
                   ''cum_diagnoses'' \<mapsto> Result_init ''Cumulative number diagnosed'' 3]\<rparr>) \<and>
   (\<exists>tn' sim' cd.
      TestNum_finalize ((TestNum_init 3 [] 100 1 1)
         \<lparr>results := [''n_diagnoses'' \<mapsto> \<lparr>name = ''Number diagnosed'', vals = [1, 0, 2]\<rparr>,
                      ''cum_diagnoses'' \<mapsto> Result_init ''Cumulative number diagnosed'' 3]\<rparr>)
        \<lparr>beta = 1/2, people = [], sim_results = Map.empty\<rparr> = Inr (tn', sim') \<and>
      sim_results sim' ''cum_diagnoses'' = Some cd \<and> length (vals cd) = 3 \<and>
      vals cd ! 0 = 1 \<and> vals cd ! 1 = 1 \<and> vals cd ! 2 = 3) \<and>
   (\<exists>tp' sim' ct cd.
      TestProp_finalize ((TestProp_init 3 (9/10) (1/100) 1 1)
         \<lparr>results := [''n_tested'' \<mapsto> \<lparr>name = ''Number tested'', vals = [2, 3, 4]\<rparr>,
                      ''n_diagnoses'' \<mapsto> \<lparr>name = ''Number diagnosed'', vals = [1, 0, 2]\<rparr>,
                      ''cum_tested'' \<mapsto> Result_init ''Cumulative number tested'' 3,
                      ''cum_diagnoses'' \<mapsto> Result_init ''Cumulative number diagnosed'' 3]\<rparr>)
        \<lparr>beta = 1/2, people = [], sim_results = Map.empty\<rparr> = Inr (tp', sim') \<and>
      sim_results sim' ''cum_tested'' = Some ct \<and> sim_results sim' ''cum_diagnoses'' = Some cd \<and>
      vals ct ! 2 = 9 \<and> vals cd ! 2 = 3)"
  (is "?I1 \<and> ?I2 \<and> ?N \<and> ?P")
proof -
  let ?tn = "(TestNum_init 3 [] 100 1 1)
      \<lparr>results := [''n_diagnoses'' \<mapsto> \<lparr>name = ''Number diagnosed'', vals = [1, 0, 2]\<rparr>,
                   ''cum_diagnoses'' \<mapsto> Result_init ''Cumulative number diagnosed'' 3]\<rparr>"
  let ?tp = "(TestProp_init 3 (9/10) (1/100) 1 1)
      \<lparr>results := [''n_tested'' \<mapsto> \<lparr>name = ''Number tested'', vals = [2, 3, 4]\<rparr>,
                   ''n_diagnoses'' \<mapsto> \<lparr>name = ''Number diagnosed'', vals = [1, 0, 2]\<rparr>,
                   ''cum_tested'' \<mapsto> Result_init ''Cumulative number tested'' 3,
                   ''cum_diagnoses'' \<mapsto> Result_init ''Cumulative number diagnosed'' 3]\<rparr>"
  let ?sim = "\<lparr>beta = 1/2, people = [], sim_results = Map.empty\<rparr>"
  have i1: ?I1
    by (simp add: TestNum_inv_def has_series_def Result_init_def)
  have i2: ?I2
    by (simp add: TestProp_inv_def has_series_def Result_init_def)
  have s: "{..2::nat} = {0, 1, 2}" "{..1::nat} = {0, 1}" by auto
  note th = finalize_cumulative [of 3 ?tn ?sim ?tp]
  from th [THEN conjunct1, rule_format, OF i1]
  obtain tn' sim' nd cd where
    f: "TestNum_finalize ?tn ?sim = Inr (tn', sim')" and
    nd: "results ?tn ''n_diagnoses'' = Some nd" and
    cd: "sim_results sim' ''cum_diagnoses'' = Some cd" and
    len: "length (vals cd) = 3" and
    cum: "\<forall>t<3. vals cd ! t = (\<Sum>k\<le>t. vals nd ! k)"
    by blast
  from nd have v: "vals nd = [1, 0, 2]" by auto
  from cum have "vals cd ! 0 = (\<Sum>k\<le>0. vals nd ! k)" "vals cd ! 1 = (\<Sum>k\<le>1. vals nd ! k)"
    "vals cd ! 2 = (\<Sum>k\<le>2. vals nd ! k)" by simp_all
  then have "vals cd ! 0 = 1 \<and> vals cd ! 1 = 1 \<and> vals cd ! 2 = 3"
    unfolding v s by simp
  with f cd len have n: ?N by blast
  from th [THEN conjunct2, rule_format, OF i2]
  obtain tp' sim2 nt ct nd2 cd2 where
    f2: "TestProp_finalize ?tp ?sim = Inr (tp', sim2)" and
    nt: "results ?tp ''n_tested'' = Some nt" and
    nd2: "results ?tp ''n_diagnoses'' = Some nd2" and
    ct: "sim_results sim2 ''cum_tested'' = Some ct" and
    cd2: "sim_results sim2 ''cum_diagnoses'' = Some cd2" and
    cumt: "\<forall>t<3. vals ct ! t = (\<Sum>k\<le>t. vals nt ! k)" and
    cumd: "\<forall>t<3. vals cd2 ! t = (\<Sum>k\<le>t. vals nd2 ! k)"
    by blast
  from nt have vt: "vals nt = [2, 3, 4]" by auto
  from nd2 have vd: "vals nd2 = [1, 0, 2]" by auto
  from cumt cumd have "vals ct ! 2 = (\<Sum>k\<le>2. vals nt ! k)" "vals cd2 ! 2 = (\<Sum>k\<le>2. vals nd2 ! k)"
    by simp_all
  then have "vals ct ! 2 = 9 \<and> vals cd2 ! 2 = 3"
    unfolding vt vd s by simp
  with f2 ct cd2 have p: ?P by blast
  from i1 i2 n p show ?thesis by blast
qed

subsection \<open>Result series and the test of a person\<close>

lemma results_incr_ok:
  assumes "has_series rs key npts" and "t < npts"
  shows "\<exists>rs'. results_incr rs key t = Inr rs' \<and>
           (\<forall>k n. has_series rs' k n = has_series rs k n) \<and>
           series_at rs' key t = series_at rs key t + 1 \<and>
           (\<forall>k u. k \<noteq> key \<longrightarrow> series_at rs' k u = series_at rs k u)"
proof -
  from assms(1) obtain s where s: "rs key = Some s" "length (vals s) = npts"
    by (rule has_seriesE)
  let ?rs = "rs(key \<mapsto> s\<lparr>vals := (vals s)[t := vals s ! t + 1]\<rparr>)"
  have "results_incr rs key t = Inr ?rs"
    using s assms(2) by (simp add: results_incr_def)
  moreover have "\<forall>k n. has_series ?rs k n = has_series rs k n"
    using s by (simp add: has_series_def)
  moreover have "series_at ?rs key t = series_at rs key t + 1"
    using s assms(2) by (simp add: series_at_def)
  moreover have "\<forall>k u. k \<noteq> key \<longrightarrow> series_at ?rs k u = series_at rs k u"
    by (simp add: series_at_def)
  ultimately show ?thesis by blast
qed

lemma Person_test_log [simp]:
  "test_log (fst (Person_test t s p r)) = (t, s) # test_log p"
  by (simp add: Person_test_def Let_def bt_def)

lemma Person_test_contacts [simp]:
  "contact_inds (fst (Person_test t s p r)) = contact_inds p"
  by (simp add: Person_test_def Let_def bt_def)

lemma Person_test_diagnosed:
  "diagnosed (fst (Person_test t s p r)) = (diagnosed p \<or> (infectious p \<and> shd r < s))"
  by (simp add: Person_test_def Let_def bt_def)

lemma Person_test_rng: "sset (snd (Person_test t s p r)) \<subseteq> sset r"
  by (auto simp: Person_test_def Let_def bt_def dest: stl_sset)

lemma bt_rng: "sset (snd (bt c r)) \<subseteq> sset r"
  by (auto simp: bt_def dest: stl_sset)

lemma bt_below: "\<forall>x\<in>sset r. x < c \<Longrightarrow> fst (bt c r)"
  by (simp add: bt_def shd_sset)

subsection \<open>TestProp: the loops\<close>

lemma TestProp_selected_scheduled:
  "i \<in> scheduled_tests self \<Longrightarrow> TestProp_selected self i p r = (True, r)"
  by (simp add: TestProp_selected_def)

lemma TestProp_selected_rng: "sset (snd (TestProp_selected self i p r)) \<subseteq> sset r"
  using bt_rng by (simp add: TestProp_selected_def)

lemma TestProp_trace_bounds:
  "new \<subseteq> fst (TestProp_trace self p idxs new r) \<and>
   fst (TestProp_trace self p idxs new r) \<subseteq> new \<union> set idxs \<and>
   sset (snd (TestProp_trace self p idxs new r)) \<subseteq> sset r"
proof (induction idxs arbitrary: new r)
  case Nil
  show ?case by simp
next
  case (Cons idx idxs)
  show ?case
  proof (cases "diagnosed p \<and> trace_prob self \<noteq> 0")
    case False
    with Cons [of new r] show ?thesis by auto
  next
    case True
    obtain b r' where b: "bt (trace_prob self) r = (b, r')" by (cases "bt (trace_prob self) r")
    with bt_rng [of "trace_prob self" r] have r': "sset r' \<subseteq> sset r" by simp
    from Cons [of "if b then insert idx new else new" r'] True b r'
    show ?thesis by (auto split: if_splits)
  qed
qed

lemma TestProp_trace_all:
  assumes "diagnosed p" and "trace_prob self \<noteq> 0" and "\<forall>x\<in>sset r. x < trace_prob self"
  shows "fst (TestProp_trace self p idxs new r) = new \<union> set idxs"
  using assms(3)
proof (induction idxs arbitrary: new r)
  case Nil
  show ?case by simp
next
  case (Cons idx idxs)
  obtain b r' where b: "bt (trace_prob self) r = (b, r')" by (cases "bt (trace_prob self) r")
  with bt_rng [of "trace_prob self" r] have r': "sset r' \<subseteq> sset r" by simp
  from b bt_below [OF Cons.prems] have "b" by simp
  moreover from r' Cons.prems have "\<forall>x\<in>sset r'. x < trace_prob self" by blast
  ultimately show ?case using Cons.IH [of r' "insert idx new"] assms(1,2) b by simp
qed

lemma TestProp_person_ok:
  assumes nt: "has_series rs ''n_tested'' npts"
    and nd: "has_series rs ''n_diagnoses'' npts"
    and t: "t < npts"
  shows "\<exists>p' rs' new' r'.
     TestProp_person self t i p rs new r = Inr (p', rs', new', r') \<and>
     (\<forall>k n. has_series rs' k n = has_series rs k n) \<and>
     (i \<in> scheduled_tests self \<longrightarrow> tested p p') \<and>
     (tested p p' \<longrightarrow> test_log p' = (t, test_sensitivity self) # test_log p) \<and>
     (\<not> tested p p' \<longrightarrow> p' = p) \<and>
     contact_inds p' = contact_inds p \<and>
     (diagnosed p \<longrightarrow> diagnosed p') \<and>
     series_at rs' ''n_tested'' t =
       series_at rs ''n_tested'' t + (if tested p p' then 1 else 0) \<and>
     series_at rs' ''n_diagnoses'' t =
       series_at rs ''n_diagnoses'' t + (if tested p p' \<and> diagnosed p' then 1 else 0) \<and>
     new \<subseteq> new' \<and>
     new' \<subseteq> new \<union> (if tested p p' \<and> diagnosed p' then set (contact_inds p') else {}) \<and>
     sset r' \<subseteq> sset r \<and>
     (trace_prob self \<noteq> 0 \<and> (\<forall>x\<in>sset r. x < trace_prob self) \<longrightarrow>
        new' = new \<union> (if tested p p' \<and> diagnosed p' then set (contact_inds p') else {}))"
proof -
  obtain sel r1 where sel: "TestProp_selected self i p r = (sel, r1)"
    by (cases "TestProp_selected self i p r")
  from TestProp_selected_rng [of self i p r] sel have r1: "sset r1 \<subseteq> sset r" by simp
  show ?thesis
  proof (cases sel)
    case False
    with sel have "TestProp_person self t i p rs new r = Inr (p, rs, new, r1)"
      by (simp add: TestProp_person_def)
    moreover from False sel have "i \<notin> scheduled_tests self"
      by (auto simp: TestProp_selected_def)
    ultimately show ?thesis using r1 by (simp add: tested_def)
  next
    case True
    from results_incr_ok [OF nt t] obtain rs1 where
      rs1: "results_incr rs ''n_tested'' t = Inr rs1" and
      hs1: "\<forall>k n. has_series rs1 k n = has_series rs k n" and
      at1: "series_at rs1 ''n_tested'' t = series_at rs ''n_tested'' t + 1" and
      ot1: "\<forall>k u. k \<noteq> ''n_tested'' \<longrightarrow> series_at rs1 k u = series_at rs k u"
      by blast
    obtain p' r2 where pt: "Person_test t (test_sensitivity self) p r1 = (p', r2)"
      by (cases "Person_test t (test_sensitivity self) p r1")
    from pt Person_test_log [of t "test_sensitivity self" p r1]
    have log: "test_log p' = (t, test_sensitivity self) # test_log p" by simp
    then have tst: "tested p p'" by (simp add: tested_def)
    from pt Person_test_contacts [of t "test_sensitivity self" p r1]
    have con: "contact_inds p' = contact_inds p" by simp
    from pt Person_test_diagnosed [of t "test_sensitivity self" p r1]
    have dia: "diagnosed p \<longrightarrow> diagnosed p'" by simp
    from pt Person_test_rng [of t "test_sensitivity self" p r1] r1
    have r2: "sset r2 \<subseteq> sset r" by auto
    show ?thesis
    proof (cases "diagnosed p'")
      case False
      with True sel rs1 pt
      have "TestProp_person self t i p rs new r = Inr (p', rs1, new, r2)"
        by (simp add: TestProp_person_def)
      moreover have "series_at rs1 ''n_diagnoses'' t = series_at rs ''n_diagnoses'' t"
        using ot1 by simp
      ultimately show ?thesis using hs1 tst log con dia at1 r2 False by simp
    next
      case dp: True
      from nd hs1 have "has_series rs1 ''n_diagnoses'' npts" by simp
      from results_incr_ok [OF this t] obtain rs2 where
        rs2: "results_incr rs1 ''n_diagnoses'' t = Inr rs2" and
        hs2: "\<forall>k n. has_series rs2 k n = has_series rs1 k n" and
        at2: "series_at rs2 ''n_diagnoses'' t = series_at rs1 ''n_diagnoses'' t + 1" and
        ot2: "\<forall>k u. k \<noteq> ''n_diagnoses'' \<longrightarrow> series_at rs2 k u = series_at rs1 k u"
        by blast
      obtain new' r3 where tr: "TestProp_trace self p' (contact_inds p') new r2 = (new', r3)"
        by (cases "TestProp_trace self p' (contact_inds p') new r2")
      from TestProp_trace_bounds [of new self p' "contact_inds p'" r2] tr r2
      have b: "new \<subseteq> new'" "new' \<subseteq> new \<union> set (contact_inds p')" "sset r3 \<subseteq> sset r"
        by auto
      have all: "trace_prob self \<noteq> 0 \<and> (\<forall>x\<in>sset r. x < trace_prob self) \<longrightarrow>
          new' = new \<union> set (contact_inds p')"
      proof
        assume a: "trace_prob self \<noteq> 0 \<and> (\<forall>x\<in>sset r. x < trace_prob self)"
        with r2 have "\<forall>x\<in>sset r2. x < trace_prob self" by blast
        from TestProp_trace_all [OF dp _ this, of "contact_inds p'" new] a tr
        show "new' = new \<union> set (contact_inds p')" by simp
      qed
      from True dp sel rs1 pt rs2 tr
      have "TestProp_person self t i p rs new r = Inr (p', rs2, new', r3)"
        by (simp add: TestProp_person_def)
      moreover have "series_at rs2 ''n_tested'' t = series_at rs ''n_tested'' t + 1"
        using ot2 at1 by simp
      moreover have "series_at rs2 ''n_diagnoses'' t = series_at rs ''n_diagnoses'' t + 1"
        using at2 ot1 by simp
      moreover have "\<forall>k n. has_series rs2 k n = has_series rs k n"
        using hs1 hs2 by simp
      ultimately show ?thesis using tst log con dia dp b all by simp
    qed
  qed
qed

lemma count_tested_Cons:
  "count_tested (p # ps) (p' # ps') = (if tested p p' then 1 else 0) + count_tested ps ps'"
  by (simp add: count_tested_def)

lemma count_diagnosed_Cons:
  "count_diagnosed (p # ps) (p' # ps') =
     (if tested p p' \<and> diagnosed p' then 1 else 0) + count_diagnosed ps ps'"
  by (simp add: count_diagnosed_def)

lemma traced_Cons:
  "traced (p # ps) (p' # ps') =
     (if tested p p' \<and> diagnosed p' then set (contact_inds p') else {}) \<union> traced ps ps'"
  by (simp add: traced_def)

lemma TestProp_loop_ok:
  assumes "has_series rs ''n_tested'' npts"
    and "has_series rs ''n_diagnoses'' npts"
    and t: "t < npts"
  shows "\<exists>ps' rs' new' r'.
     TestProp_loop self t i ps rs new r = Inr (ps', rs', new', r') \<and>
     length ps' = length ps \<and>
     (\<forall>k n. has_series rs' k n = has_series rs k n) \<and>
     (\<forall>k<length ps.
        (i + k \<in> scheduled_tests self \<longrightarrow> tested (ps ! k) (ps' ! k)) \<and>
        (tested (ps ! k) (ps' ! k) \<longrightarrow>
           test_log (ps' ! k) = (t, test_sensitivity self) # test_log (ps ! k)) \<and>
        (\<not> tested (ps ! k) (ps' ! k) \<longrightarrow> ps' ! k = ps ! k) \<and>
        contact_inds (ps' ! k) = contact_inds (ps ! k) \<and>
        (diagnosed (ps ! k) \<longrightarrow> diagnosed (ps' ! k))) \<and>
     series_at rs' ''n_tested'' t = series_at rs ''n_tested'' t + real (count_tested ps ps') \<and>
     series_at rs' ''n_diagnoses'' t =
       series_at rs ''n_diagnoses'' t + real (count_diagnosed ps ps') \<and>
     new \<subseteq> new' \<and> new' \<subseteq> new \<union> traced ps ps' \<and> sset r' \<subseteq> sset r \<and>
     (trace_prob self \<noteq> 0 \<and> (\<forall>x\<in>sset r. x < trace_prob self) \<longrightarrow>
        new' = new \<union> traced ps ps')"
  using assms(1,2)
proof (induction ps arbitrary: i rs new r)
  case Nil
  show ?case by (simp add: count_tested_def count_diagnosed_def traced_def)
next
  case (Cons p ps)
  from TestProp_person_ok [OF Cons.prems t, of self i p new r]
  obtain p' rs1 new1 r1 where
    step: "TestProp_person self t i p rs new r = Inr (p', rs1, new1, r1)" and
    hs1: "\<forall>k n. has_series rs1 k n = has_series rs k n" and
    sch: "i \<in> scheduled_tests self \<longrightarrow> tested p p'" and
    log: "tested p p' \<longrightarrow> test_log p' = (t, test_sensitivity self) # test_log p" and
    same: "\<not> tested p p' \<longrightarrow> p' = p" and
    con: "contact_inds p' = contact_inds p" and
    dia: "diagnosed p \<longrightarrow> diagnosed p'" and
    nt1: "series_at rs1 ''n_tested'' t =
            series_at rs ''n_tested'' t + (if tested p p' then 1 else 0)" and
    nd1: "series_at rs1 ''n_diagnoses'' t =
            series_at rs ''n_diagnoses'' t + (if tested p p' \<and> diagnosed p' then 1 else 0)" and
    sub1: "new \<subseteq> new1" and
    sup1: "new1 \<subseteq> new \<union> (if tested p p' \<and> diagnosed p' then set (contact_inds p') else {})" and
    rng1: "sset r1 \<subseteq> sset r" and
    all1: "trace_prob self \<noteq> 0 \<and> (\<forall>x\<in>sset r. x < trace_prob self) \<longrightarrow>
        new1 = new \<union> (if tested p p' \<and> diagnosed p' then set (contact_inds p') else {})"
    by blast
  from Cons.prems hs1 have h1: "has_series rs1 ''n_tested'' npts" "has_series rs1 ''n_diagnoses'' npts"
    by simp_all
  from Cons.IH [OF h1, of "Suc i" new1 r1]
  obtain ps' rs2 new2 r2 where
    rest: "TestProp_loop self t (Suc i) ps rs1 new1 r1 = Inr (ps', rs2, new2, r2)" and
    len: "length ps' = length ps" and
    hs2: "\<forall>k n. has_series rs2 k n = has_series rs1 k n" and
    pw: "\<forall>k<length ps.
        (Suc i + k \<in> scheduled_tests self \<longrightarrow> tested (ps ! k) (ps' ! k)) \<and>
        (tested (ps ! k) (ps' ! k) \<longrightarrow>
           test_log (ps' ! k) = (t, test_sensitivity self) # test_log (ps ! k)) \<and>
        (\<not> tested (ps ! k) (ps' ! k) \<longrightarrow> ps' ! k = ps ! k) \<and>
        contact_inds (ps' ! k) = contact_inds (ps ! k) \<and>
        (diagnosed (ps ! k) \<longrightarrow> diagnosed (ps' ! k))" and
    nt2: "series_at rs2 ''n_tested'' t = series_at rs1 ''n_tested'' t + real (count_tested ps ps')" and
    nd2: "series_at rs2 ''n_diagnoses'' t =
            series_at rs1 ''n_diagnoses'' t + real (count_diagnosed ps ps')" and
    sub2: "new1 \<subseteq> new2" and
    sup2: "new2 \<subseteq> new1 \<union> traced ps ps'" and
    rng2: "sset r2 \<subseteq> sset r1" and
    all2: "trace_prob self \<noteq> 0 \<and> (\<forall>x\<in>sset r1. x < trace_prob self) \<longrightarrow>
        new2 = new1 \<union> traced ps ps'"
    by blast
  have run: "TestProp_loop self t i (p # ps) rs new r = Inr (p' # ps', rs2, new2, r2)"
    using step rest by simp
  have pw': "\<forall>k<length (p # ps).
        (i + k \<in> scheduled_tests self \<longrightarrow> tested ((p # ps) ! k) ((p' # ps') ! k)) \<and>
        (tested ((p # ps) ! k) ((p' # ps') ! k) \<longrightarrow>
           test_log ((p' # ps') ! k) = (t, test_sensitivity self) # test_log ((p # ps) ! k)) \<and>
        (\<not> tested ((p # ps) ! k) ((p' # ps') ! k) \<longrightarrow> (p' # ps') ! k = (p # ps) ! k) \<and>
        contact_inds ((p' # ps') ! k) = contact_inds ((p # ps) ! k) \<and>
        (diagnosed ((p # ps) ! k) \<longrightarrow> diagnosed ((p' # ps') ! k))"
  proof (intro allI impI)
    fix k assume k: "k < length (p # ps)"
    show "(i + k \<in> scheduled_tests self \<longrightarrow> tested ((p # ps) ! k) ((p' # ps') ! k)) \<and>
        (tested ((p # ps) ! k) ((p' # ps') ! k) \<longrightarrow>
           test_log ((p' # ps') ! k) = (t, test_sensitivity self) # test_log ((p # ps) ! k)) \<and>
        (\<not> tested ((p # ps) ! k) ((p' # ps') ! k) \<longrightarrow> (p' # ps') ! k = (p # ps) ! k) \<and>
        contact_inds ((p' # ps') ! k) = contact_inds ((p # ps) ! k) \<and>
        (diagnosed ((p # ps) ! k) \<longrightarrow> diagnosed ((p' # ps') ! k))"
    proof (cases k)
      case 0
      with sch log same con dia show ?thesis by simp
    next
      case (Suc j)
      with k have "j < length ps" by simp
      with pw Suc show ?thesis by simp
    qed
  qed
  have nt': "series_at rs2 ''n_tested'' t =
      series_at rs ''n_tested'' t + real (count_tested (p # ps) (p' # ps'))"
    using nt1 nt2 by (simp add: count_tested_Cons)
  have nd': "series_at rs2 ''n_diagnoses'' t =
      series_at rs ''n_diagnoses'' t + real (count_diagnosed (p # ps) (p' # ps'))"
    using nd1 nd2 by (simp add: count_diagnosed_Cons)
  have sub': "new \<subseteq> new2" using sub1 sub2 by blast
  have sup': "new2 \<subseteq> new \<union> traced (p # ps) (p' # ps')"
    using sup1 sup2 unfolding traced_Cons by blast
  have rng': "sset r2 \<subseteq> sset r" using rng1 rng2 by blast
  have all': "trace_prob self \<noteq> 0 \<and> (\<forall>x\<in>sset r. x < trace_prob self) \<longrightarrow>
        new2 = new \<union> traced (p # ps) (p' # ps')"
  proof
    assume a: "trace_prob self \<noteq> 0 \<and> (\<forall>x\<in>sset r. x < trace_prob self)"
    with rng1 have "trace_prob self \<noteq> 0 \<and> (\<forall>x\<in>sset r1. x < trace_prob self)" by blast
    with all2 have "new2 = new1 \<union> traced ps ps'" by blast
    moreover from a all1
    have "new1 = new \<union> (if tested p p' \<and> diagnosed p' then set (contact_inds p') else {})"
      by blast
    ultimately show "new2 = new \<union> traced (p # ps) (p' # ps')"
      unfolding traced_Cons by blast
  qed
  have hs': "\<forall>k n. has_series rs2 k n = has_series rs k n" using hs1 hs2 by simp
  have len': "length (p' # ps') = length (p # ps)" using len by simp
  from run len' hs' pw' nt' nd' sub' sup' rng' all' show ?case by blast
qed

lemma count_tested_card:
  assumes "length ps' = length ps"
  shows "count_tested ps ps' = card {k. k < length ps \<and> tested (ps ! k) (ps' ! k)}"
proof -
  have "count_tested ps ps' =
      card {k. k < length (zip ps ps') \<and> (\<lambda>(p, p'). tested p p') (zip ps ps' ! k)}"
    unfolding count_tested_def by (rule length_filter_conv_card)
  also have "{k. k < length (zip ps ps') \<and> (\<lambda>(p, p'). tested p p') (zip ps ps' ! k)} =
      {k. k < length ps \<and> tested (ps ! k) (ps' ! k)}"
    using assms by auto
  finally show ?thesis .
qed

lemma count_diagnosed_card:
  assumes "length ps' = length ps"
  shows "count_diagnosed ps ps' =
     card {k. k < length ps \<and> tested (ps ! k) (ps' ! k) \<and> diagnosed (ps' ! k)}"
proof -
  have "count_diagnosed ps ps' =
      card {k. k < length (zip ps ps') \<and>
               (\<lambda>(p, p'). tested p p' \<and> diagnosed p') (zip ps ps' ! k)}"
    unfolding count_diagnosed_def by (rule length_filter_conv_card)
  also have "{k. k < length (zip ps ps') \<and>
               (\<lambda>(p, p'). tested p p' \<and> diagnosed p') (zip ps ps' ! k)} =
      {k. k < length ps \<and> tested (ps ! k) (ps' ! k) \<and> diagnosed (ps' ! k)}"
    using assms by auto
  finally show ?thesis .
qed

lemma traced_iff:
  assumes "length ps' = length ps"
  shows "j \<in> traced ps ps' \<longleftrightarrow>
     (\<exists>k<length ps. tested (ps ! k) (ps' ! k) \<and> diagnosed (ps' ! k) \<and>
                    j \<in> set (contact_inds (ps' ! k)))"
proof
  assume "j \<in> traced ps ps'"
  then obtain p p' where m: "(p, p') \<in> set (zip ps ps')"
    and j: "j \<in> (if tested p p' \<and> diagnosed p' then set (contact_inds p') else {})"
    by (auto simp: traced_def)
  from m obtain k where "k < length (zip ps ps')" "zip ps ps' ! k = (p, p')"
    by (auto simp: in_set_conv_nth)
  with assms have "k < length ps" "ps ! k = p" "ps' ! k = p'" by auto
  with j show "\<exists>k<length ps. tested (ps ! k) (ps' ! k) \<and> diagnosed (ps' ! k) \<and>
                    j \<in> set (contact_inds (ps' ! k))"
    by (auto split: if_splits)
next
  assume "\<exists>k<length ps. tested (ps ! k) (ps' ! k) \<and> diagnosed (ps' ! k) \<and>
                    j \<in> set (contact_inds (ps' ! k))"
  then obtain k where k: "k < length ps" "tested (ps ! k) (ps' ! k)" "diagnosed (ps' ! k)"
    "j \<in> set (contact_inds (ps' ! k))" by blast
  with assms have "(ps ! k, ps' ! k) \<in> set (zip ps ps')"
    by (auto simp: in_set_conv_nth intro!: exI [of _ k])
  with k show "j \<in> traced ps ps'"
    by (auto simp: traced_def intro!: bexI [of _ "(ps ! k, ps' ! k)"])
qed

lemma TestProp_apply_ok:
  assumes inv: "TestProp_inv npts tp" and t: "t < npts"
  shows "\<exists>tp' sim' r'.
     TestProp_apply tp sim t r = Inr (tp', sim', r') \<and>
     TestProp_inv npts tp' \<and>
     test_sensitivity tp' = test_sensitivity tp \<and> trace_prob tp' = trace_prob tp \<and>
     symptomatic_prob tp' = symptomatic_prob tp \<and> asymptomatic_prob tp' = asymptomatic_prob tp \<and>
     length (people sim') = length (people sim) \<and>
     (\<forall>k<length (people sim).
        (k \<in> scheduled_tests tp \<longrightarrow> tested (people sim ! k) (people sim' ! k)) \<and>
        (tested (people sim ! k) (people sim' ! k) \<longrightarrow>
           test_log (people sim' ! k) = (t, test_sensitivity tp) # test_log (people sim ! k)) \<and>
        (\<not> tested (people sim ! k) (people sim' ! k) \<longrightarrow> people sim' ! k = people sim ! k) \<and>
        contact_inds (people sim' ! k) = contact_inds (people sim ! k) \<and>
        (diagnosed (people sim ! k) \<longrightarrow> diagnosed (people sim' ! k))) \<and>
     series_at (results tp') ''n_tested'' t =
       series_at (results tp) ''n_tested'' t + real (count_tested (people sim) (people sim')) \<and>
     series_at (results tp') ''n_diagnoses'' t =
       series_at (results tp) ''n_diagnoses'' t +
       real (count_diagnosed (people sim) (people sim')) \<and>
     scheduled_tests tp' \<subseteq> traced (people sim) (people sim') \<and>
     (trace_prob tp \<noteq> 0 \<and> (\<forall>x\<in>sset r. x < trace_prob tp) \<longrightarrow>
        scheduled_tests tp' = traced (people sim) (people sim'))"
proof -
  from inv have h: "has_series (results tp) ''n_tested'' npts"
    "has_series (results tp) ''n_diagnoses'' npts"
    by (simp_all add: TestProp_inv_def)
  from TestProp_loop_ok [OF h t, of tp 0 "people sim" "{}" r]
  obtain ps' rs' new' r' where
    run: "TestProp_loop tp t 0 (people sim) (results tp) {} r = Inr (ps', rs', new', r')" and
    len: "length ps' = length (people sim)" and
    hs: "\<forall>k n. has_series rs' k n = has_series (results tp) k n" and
    pw: "\<forall>k<length (people sim).
        (0 + k \<in> scheduled_tests tp \<longrightarrow> tested (people sim ! k) (ps' ! k)) \<and>
        (tested (people sim ! k) (ps' ! k) \<longrightarrow>
           test_log (ps' ! k) = (t, test_sensitivity tp) # test_log (people sim ! k)) \<and>
        (\<not> tested (people sim ! k) (ps' ! k) \<longrightarrow> ps' ! k = people sim ! k) \<and>
        contact_inds (ps' ! k) = contact_inds (people sim ! k) \<and>
        (diagnosed (people sim ! k) \<longrightarrow> diagnosed (ps' ! k))" and
    nt: "series_at rs' ''n_tested'' t =
           series_at (results tp) ''n_tested'' t + real (count_tested (people sim) ps')" and
    nd: "series_at rs' ''n_diagnoses'' t =
           series_at (results tp) ''n_diagnoses'' t + real (count_diagnosed (people sim) ps')" and
    sup: "new' \<subseteq> {} \<union> traced (people sim) ps'" and
    all: "trace_prob tp \<noteq> 0 \<and> (\<forall>x\<in>sset r. x < trace_prob tp) \<longrightarrow>
        new' = {} \<union> traced (people sim) ps'"
    by blast
  let ?tp = "tp\<lparr>results := rs', scheduled_tests := new'\<rparr>"
  let ?sim = "sim\<lparr>people := ps'\<rparr>"
  have a: "TestProp_apply tp sim t r = Inr (?tp, ?sim, r')"
    using run by (simp add: TestProp_apply_def)
  have i: "TestProp_inv npts ?tp"
    using inv hs by (simp add: TestProp_inv_def)
  from pw have pw0: "\<forall>k<length (people sim).
        (k \<in> scheduled_tests tp \<longrightarrow> tested (people sim ! k) (ps' ! k)) \<and>
        (tested (people sim ! k) (ps' ! k) \<longrightarrow>
           test_log (ps' ! k) = (t, test_sensitivity tp) # test_log (people sim ! k)) \<and>
        (\<not> tested (people sim ! k) (ps' ! k) \<longrightarrow> ps' ! k = people sim ! k) \<and>
        contact_inds (ps' ! k) = contact_inds (people sim ! k) \<and>
        (diagnosed (people sim ! k) \<longrightarrow> diagnosed (ps' ! k))"
    by simp
  show ?thesis
    apply (rule exI [of _ ?tp], rule exI [of _ ?sim], rule exI [of _ r'])
    using a i len pw0 nt nd sup all by simp
qed

lemmas example_defs =
  person_P_def person_Q_def example_sim_def example_TestProp_def example_rng_def
  TestProp_init_def Result_init_def

lemmas TestProp_eval =
  TestProp_apply_def TestProp_person_def TestProp_selected_def Person_test_def bt_def
  results_incr_def Let_def numeral_3_eq_3

lemma example_day0:
  "(case TestProp_apply example_TestProp example_sim 0 example_rng of
      Inl e \<Rightarrow> False
    | Inr (tp1, sim1, r1) \<Rightarrow>
        scheduled_tests tp1 = {1} \<and> r1 = sconst (19/20) \<and>
        length (people sim1) = 2 \<and>
        diagnosed (people sim1 ! 0) \<and>
        \<not> symptomatic (people sim1 ! 1) \<and> test_log (people sim1 ! 1) = [] \<and>
        series_at (results tp1) ''n_diagnoses'' 0 = 1)"
  by (simp add: example_defs TestProp_eval series_at_def)

subsection \<open>TestProp: the scheduled tests\<close>

text \<open>
  Claim C2. Let the intervention hold its series with \<open>npts\<close> entries and let days
  \<open>t\<close> and \<open>t + 1\<close> be days of the simulation. Then \<open>apply\<close> returns on day \<open>t\<close>, and
  whatever the people and the random draws are on day \<open>t + 1\<close>, \<open>apply\<close> returns on
  that day too and every index it found in the scheduled set that is the index of a
  person has been tested: the person's log of tests has the new entry
  \<open>(t + 1, test_sensitivity)\<close>, and each person tested that day, the scheduled ones
  among them, adds one to \<open>n_tested[t + 1]\<close>.
\<close>

theorem TestProp_forced_retest:
  assumes "TestProp_inv npts tp0" and "Suc t < npts"
  shows "\<exists>tp1 sim1 r1.
     TestProp_apply tp0 sim0 t r0 = Inr (tp1, sim1, r1) \<and>
     (\<forall>sim r. \<exists>tp2 sim2 r2.
        TestProp_apply tp1 sim (Suc t) r = Inr (tp2, sim2, r2) \<and>
        length (people sim2) = length (people sim) \<and>
        (\<forall>i\<in>scheduled_tests tp1. i < length (people sim) \<longrightarrow>
           test_log (people sim2 ! i) =
             (Suc t, test_sensitivity tp0) # test_log (people sim ! i)) \<and>
        series_at (results tp2) ''n_tested'' (Suc t) =
          series_at (results tp1) ''n_tested'' (Suc t) +
          real (count_tested (people sim) (people sim2)) \<and>
        card {i \<in> scheduled_tests tp1. i < length (people sim)}
          \<le> count_tested (people sim) (people sim2))"
proof -
  from assms(2) have t: "t < npts" by simp
  from TestProp_apply_ok [OF assms(1) t, of sim0 r0]
  obtain tp1 sim1 r1 where
    a1: "TestProp_apply tp0 sim0 t r0 = Inr (tp1, sim1, r1)" and
    inv1: "TestProp_inv npts tp1" and
    sens: "test_sensitivity tp1 = test_sensitivity tp0"
    by blast
  have "\<exists>tp2 sim2 r2.
        TestProp_apply tp1 sim (Suc t) r = Inr (tp2, sim2, r2) \<and>
        length (people sim2) = length (people sim) \<and>
        (\<forall>i\<in>scheduled_tests tp1. i < length (people sim) \<longrightarrow>
           test_log (people sim2 ! i) =
             (Suc t, test_sensitivity tp0) # test_log (people sim ! i)) \<and>
        series_at (results tp2) ''n_tested'' (Suc t) =
          series_at (results tp1) ''n_tested'' (Suc t) +
          real (count_tested (people sim) (people sim2)) \<and>
        card {i \<in> scheduled_tests tp1. i < length (people sim)}
          \<le> count_tested (people sim) (people sim2)" for sim r
  proof -
    from TestProp_apply_ok [OF inv1 assms(2), of sim r]
    obtain tp2 sim2 r2 where
      a2: "TestProp_apply tp1 sim (Suc t) r = Inr (tp2, sim2, r2)" and
      len: "length (people sim2) = length (people sim)" and
      pw: "\<forall>k<length (people sim).
        (k \<in> scheduled_tests tp1 \<longrightarrow> tested (people sim ! k) (people sim2 ! k)) \<and>
        (tested (people sim ! k) (people sim2 ! k) \<longrightarrow>
           test_log (people sim2 ! k) =
             (Suc t, test_sensitivity tp1) # test_log (people sim ! k))" and
      nt: "series_at (results tp2) ''n_tested'' (Suc t) =
          series_at (results tp1) ''n_tested'' (Suc t) +
          real (count_tested (people sim) (people sim2))"
      by blast
    have logs: "\<forall>i\<in>scheduled_tests tp1. i < length (people sim) \<longrightarrow>
           test_log (people sim2 ! i) =
             (Suc t, test_sensitivity tp0) # test_log (people sim ! i)"
      using pw sens by auto
    have "{i \<in> scheduled_tests tp1. i < length (people sim)} \<subseteq>
          {k. k < length (people sim) \<and> tested (people sim ! k) (people sim2 ! k)}"
      using pw by auto
    then have "card {i \<in> scheduled_tests tp1. i < length (people sim)} \<le>
          card {k. k < length (people sim) \<and> tested (people sim ! k) (people sim2 ! k)}"
      by (intro card_mono) simp_all
    then have cnt: "card {i \<in> scheduled_tests tp1. i < length (people sim)}
          \<le> count_tested (people sim) (people sim2)"
      by (simp add: count_tested_card [OF len])
    from a2 len logs nt cnt show ?thesis by blast
  qed
  with a1 show ?thesis by blast
qed

lemma example_inv: "TestProp_inv 3 example_TestProp"
  unfolding example_TestProp_def by (rule TestProp_init_inv)

theorem TestProp_forced_retest_witness:
  "TestProp_inv 3 example_TestProp \<and> Suc 0 < (3::nat) \<and>
   (\<exists>tp1 sim1 r1 tp2 sim2 r2.
      TestProp_apply example_TestProp example_sim 0 example_rng = Inr (tp1, sim1, r1) \<and>
      1 \<in> scheduled_tests tp1 \<and>
      \<not> symptomatic (people sim1 ! 1) \<and> asymptomatic_prob example_TestProp = 0 \<and>
      TestProp_apply tp1 sim1 (Suc 0) r1 = Inr (tp2, sim2, r2) \<and>
      test_log (people sim2 ! 1) = [(Suc 0, 1)])"
proof -
  have lt: "Suc 0 < (3::nat)" by simp
  from TestProp_forced_retest [OF example_inv lt, of example_sim example_rng]
  obtain tp1 sim1 r1 where
    a1: "TestProp_apply example_TestProp example_sim 0 example_rng = Inr (tp1, sim1, r1)" and
    nxt: "\<forall>sim r. \<exists>tp2 sim2 r2.
        TestProp_apply tp1 sim (Suc 0) r = Inr (tp2, sim2, r2) \<and>
        length (people sim2) = length (people sim) \<and>
        (\<forall>i\<in>scheduled_tests tp1. i < length (people sim) \<longrightarrow>
           test_log (people sim2 ! i) =
             (Suc 0, test_sensitivity example_TestProp) # test_log (people sim ! i)) \<and>
        series_at (results tp2) ''n_tested'' (Suc 0) =
          series_at (results tp1) ''n_tested'' (Suc 0) +
          real (count_tested (people sim) (people sim2)) \<and>
        card {i \<in> scheduled_tests tp1. i < length (people sim)}
          \<le> count_tested (people sim) (people sim2)"
    by blast
  from example_day0 a1 have
    s: "scheduled_tests tp1 = {1}" and l: "length (people sim1) = 2" and
    q: "\<not> symptomatic (people sim1 ! 1)" and g: "test_log (people sim1 ! 1) = []"
    by simp_all
  from nxt obtain tp2 sim2 r2 where
    a2: "TestProp_apply tp1 sim1 (Suc 0) r1 = Inr (tp2, sim2, r2)" and
    logs: "\<forall>i\<in>scheduled_tests tp1. i < length (people sim1) \<longrightarrow>
           test_log (people sim2 ! i) =
             (Suc 0, test_sensitivity example_TestProp) # test_log (people sim1 ! i)"
    by blast
  have "test_sensitivity example_TestProp = 1" "asymptomatic_prob example_TestProp = 0"
    by (simp_all add: example_defs)
  with logs s l g have "test_log (people sim2 ! 1) = [(Suc 0, 1)]" by simp
  with a1 a2 s q \<open>asymptomatic_prob example_TestProp = 0\<close> example_inv lt
  show ?thesis by blast
qed

lemma example_three_days:
  "(case TestProp_apply example_TestProp example_sim 0 example_rng of
      Inl e \<Rightarrow> False
    | Inr (tp1, sim1, r1) \<Rightarrow>
        (case TestProp_apply tp1 sim1 (Suc 0) r1 of
           Inl e \<Rightarrow> False
         | Inr (tp2, sim2, r2) \<Rightarrow>
             (case TestProp_apply tp2 sim2 2 r2 of
                Inl e \<Rightarrow> False
              | Inr (tp3, sim3, r3) \<Rightarrow>
                  1 \<in> scheduled_tests tp1 \<and>
                  tested (people sim1 ! 1) (people sim2 ! 1) \<and>
                  1 \<notin> scheduled_tests tp2 \<and>
                  1 < length (people sim2) \<and>
                  \<not> tested (people sim2 ! 1) (people sim3 ! 1))))"
  by (simp add: example_defs TestProp_eval tested_def)

lemma sset_sdrop: "sset (sdrop n s) \<subseteq> sset s"
proof (induction n arbitrary: s)
  case 0
  show ?case by simp
next
  case (Suc n)
  have "sset (sdrop n (stl s)) \<subseteq> sset (stl s)" by (rule Suc)
  also have "sset (stl s) \<subseteq> sset s" by (auto dest: stl_sset)
  finally show ?case by simp
qed

lemma trace_hits_Nil: "trace_hits prob [] r = {}"
  by (simp add: trace_hits_def)

lemma trace_hits_Cons:
  "trace_hits prob (idx # idxs) r =
     (if shd r < prob then {idx} else {}) \<union> trace_hits prob idxs (stl r)"
  by (simp add: trace_hits_def)

lemma trace_hits_subset: "trace_hits prob idxs r \<subseteq> set idxs"
  by (induction idxs arbitrary: r) (auto simp: trace_hits_Nil trace_hits_Cons)

lemma trace_hits_none:
  "\<forall>x\<in>sset r. \<not> x < prob \<Longrightarrow> trace_hits prob idxs r = {}"
proof (induction idxs arbitrary: r)
  case Nil
  show ?case by (rule trace_hits_Nil)
next
  case (Cons idx idxs)
  from Cons.prems have "\<not> shd r < prob" by (simp add: shd_sset)
  moreover from Cons.prems have "\<forall>x\<in>sset (stl r). \<not> x < prob" by (auto dest: stl_sset)
  then have "trace_hits prob idxs (stl r) = {}" by (rule Cons.IH)
  ultimately show ?case by (simp add: trace_hits_Cons)
qed

lemma TestProp_trace_hits:
  "TestProp_trace self p idxs new r =
     (if diagnosed p \<and> trace_prob self \<noteq> 0
      then (new \<union> trace_hits (trace_prob self) idxs r, sdrop (length idxs) r)
      else (new, r))"
proof (induction idxs arbitrary: new r)
  case Nil
  show ?case by (simp add: trace_hits_Nil)
next
  case (Cons idx idxs)
  show ?case
  proof (cases "diagnosed p \<and> trace_prob self \<noteq> 0")
    case False
    then have c: "(diagnosed p \<and> trace_prob self \<noteq> 0) = False" by simp
    show ?thesis by (simp only: TestProp_trace.simps c if_False Cons)
  next
    case True
    have "TestProp_trace self p (idx # idxs) new r =
        TestProp_trace self p idxs
          (if shd r < trace_prob self then insert idx new else new) (stl r)"
      using True by (simp add: bt_def)
    also have "\<dots> =
        ((if shd r < trace_prob self then insert idx new else new) \<union>
           trace_hits (trace_prob self) idxs (stl r),
         sdrop (length idxs) (stl r))"
      using True by (simp add: Cons)
    also have "\<dots> =
        (new \<union> trace_hits (trace_prob self) (idx # idxs) r, sdrop (length (idx # idxs)) r)"
      by (auto simp: trace_hits_Cons)
    finally show ?thesis using True by simp
  qed
qed

lemma TestProp_person_added:
  assumes "TestProp_person self t i p rs new r = Inr (p', rs', new', r')"
  shows "new' \<union> TestProp_added self t (Suc i) ps r' =
         new \<union> TestProp_added self t i (p # ps) r"
proof -
  obtain sel r1 where sel: "TestProp_selected self i p r = (sel, r1)"
    by (cases "TestProp_selected self i p r")
  show ?thesis
  proof (cases sel)
    case False
    with assms sel have "new' = new" "r' = r1" by (simp_all add: TestProp_person_def)
    with False sel show ?thesis by simp
  next
    case True
    obtain q r2 where pt: "Person_test t (test_sensitivity self) p r1 = (q, r2)"
      by (cases "Person_test t (test_sensitivity self) p r1")
    show ?thesis
    proof (cases "diagnosed q")
      case False
      with assms sel True pt have "new' = new" "r' = r2"
        by (auto simp: TestProp_person_def split: sum.splits)
      with False True sel pt show ?thesis by simp
    next
      case dq: True
      with assms sel True pt
      have tr: "TestProp_trace self q (contact_inds q) new r2 = (new', r')"
        by (auto simp: TestProp_person_def split: sum.splits prod.splits)
      show ?thesis
      proof (cases "trace_prob self = 0")
        case z: True
        with tr dq have "new' = new" "r' = r2" by (simp_all add: TestProp_trace_hits)
        with z dq True sel pt show ?thesis by simp
      next
        case nz: False
        with tr dq have "new' = new \<union> trace_hits (trace_prob self) (contact_inds q) r2"
          "r' = sdrop (length (contact_inds q)) r2"
          by (simp_all add: TestProp_trace_hits)
        with nz dq True sel pt show ?thesis by (simp add: Un_assoc)
      qed
    qed
  qed
qed

lemma TestProp_loop_added:
  "TestProp_loop self t i ps rs new r = Inr (ps', rs', new', r') \<Longrightarrow>
   new' = new \<union> TestProp_added self t i ps r"
proof (induction ps arbitrary: i rs new r ps' rs' new' r')
  case Nil
  then show ?case by simp
next
  case (Cons p ps)
  from Cons.prems obtain p1 rs1 new1 r1 ps1 where
    step: "TestProp_person self t i p rs new r = Inr (p1, rs1, new1, r1)" and
    rest: "TestProp_loop self t (Suc i) ps rs1 new1 r1 = Inr (ps1, rs', new', r')"
    by (auto split: sum.splits prod.splits)
  from Cons.IH [OF rest] have "new' = new1 \<union> TestProp_added self t (Suc i) ps r1" .
  also from TestProp_person_added [OF step, of ps]
  have "\<dots> = new \<union> TestProp_added self t i (p # ps) r" .
  finally show ?case .
qed

lemma TestProp_added_none:
  assumes "trace_prob self = 0 \<or> (\<forall>x\<in>sset r. \<not> x < trace_prob self)"
  shows "TestProp_added self t i ps r = {}"
  using assms
proof (induction ps arbitrary: i r)
  case Nil
  show ?case by simp
next
  case (Cons p ps)
  obtain sel r1 where sel: "TestProp_selected self i p r = (sel, r1)"
    by (cases "TestProp_selected self i p r")
  from TestProp_selected_rng [of self i p r] sel have s1: "sset r1 \<subseteq> sset r" by simp
  obtain q r2 where pt: "Person_test t (test_sensitivity self) p r1 = (q, r2)"
    by (cases "Person_test t (test_sensitivity self) p r1")
  from Person_test_rng [of t "test_sensitivity self" p r1] pt s1
  have s2: "sset r2 \<subseteq> sset r" by auto
  let ?r3 = "sdrop (length (contact_inds q)) r2"
  from sset_sdrop [of "length (contact_inds q)" r2] s2 have s3: "sset ?r3 \<subseteq> sset r" by blast
  have h: "trace_prob self = 0 \<or> (\<forall>x\<in>sset r'. \<not> x < trace_prob self)"
    if "sset r' \<subseteq> sset r" for r'
    using Cons.prems that by blast
  have e1: "TestProp_added self t (Suc i) ps r1 = {}" by (rule Cons.IH [OF h [OF s1]])
  have e2: "TestProp_added self t (Suc i) ps r2 = {}" by (rule Cons.IH [OF h [OF s2]])
  have e3: "TestProp_added self t (Suc i) ps ?r3 = {}" by (rule Cons.IH [OF h [OF s3]])
  have hits: "trace_hits (trace_prob self) (contact_inds q) r2 = {}" if "trace_prob self \<noteq> 0"
  proof (rule trace_hits_none)
    from h [OF s2] that show "\<forall>x\<in>sset r2. \<not> x < trace_prob self" by blast
  qed
  from sel pt e1 e2 e3 hits show ?case by simp
qed

text \<open>
  Claim C6. A call of \<open>apply\<close> on a day of the simulation returns, and the scheduled
  set it leaves is the set of the indices added during this call, whatever the
  previous set held: it holds only contacts of people tested and found diagnosed in
  the call; an index of the previous set that is not added again is not in the new
  set, be it a contact of a person diagnosed in this call or not; and when no tracing
  trial can succeed the new set is empty. Such an index need not be tested two days
  after it was scheduled: in the example population \<open>Q\<close> (index 1) is scheduled on
  day 0, tested on day 1, not scheduled again, and not tested on day 2.
\<close>

theorem TestProp_lookahead:
  assumes "TestProp_inv npts tp" and "t < npts"
  shows "(\<exists>tp' sim' r'.
      TestProp_apply tp sim t r = Inr (tp', sim', r') \<and>
      scheduled_tests tp' = TestProp_added tp t 0 (people sim) r \<and>
      scheduled_tests tp' \<subseteq> traced (people sim) (people sim') \<and>
      (\<forall>j\<in>scheduled_tests tp. j \<notin> TestProp_added tp t 0 (people sim) r \<longrightarrow>
         j \<notin> scheduled_tests tp') \<and>
      (\<forall>j\<in>scheduled_tests tp. j \<notin> traced (people sim) (people sim') \<longrightarrow>
         j \<notin> scheduled_tests tp') \<and>
      (trace_prob tp = 0 \<or> (\<forall>x\<in>sset r. \<not> x < trace_prob tp) \<longrightarrow>
         scheduled_tests tp' = {})) \<and>
    (\<exists>tp1 sim1 r1 tp2 sim2 r2 tp3 sim3 r3.
      TestProp_apply example_TestProp example_sim 0 example_rng = Inr (tp1, sim1, r1) \<and>
      1 \<in> scheduled_tests tp1 \<and>
      TestProp_apply tp1 sim1 (Suc 0) r1 = Inr (tp2, sim2, r2) \<and>
      tested (people sim1 ! 1) (people sim2 ! 1) \<and>
      1 \<notin> scheduled_tests tp2 \<and>
      TestProp_apply tp2 sim2 2 r2 = Inr (tp3, sim3, r3) \<and>
      1 < length (people sim2) \<and>
      \<not> tested (people sim2 ! 1) (people sim3 ! 1))"
proof
  from TestProp_apply_ok [OF assms, of sim r]
  obtain tp' sim' r' where
    a: "TestProp_apply tp sim t r = Inr (tp', sim', r')" and
    s: "scheduled_tests tp' \<subseteq> traced (people sim) (people sim')"
    by blast
  from a obtain ps' rs' new' where
    run: "TestProp_loop tp t 0 (people sim) (results tp) {} r = Inr (ps', rs', new', r')" and
    new: "scheduled_tests tp' = new'"
    by (auto simp: TestProp_apply_def split: sum.splits prod.splits)
  from TestProp_loop_added [OF run] new
  have e: "scheduled_tests tp' = TestProp_added tp t 0 (people sim) r" by simp
  from e have n1: "\<forall>j\<in>scheduled_tests tp. j \<notin> TestProp_added tp t 0 (people sim) r \<longrightarrow>
         j \<notin> scheduled_tests tp'" by simp
  from s have n2: "\<forall>j\<in>scheduled_tests tp. j \<notin> traced (people sim) (people sim') \<longrightarrow>
         j \<notin> scheduled_tests tp'" by blast
  have n3: "trace_prob tp = 0 \<or> (\<forall>x\<in>sset r. \<not> x < trace_prob tp) \<longrightarrow>
         scheduled_tests tp' = {}"
    unfolding e by (rule impI) (rule TestProp_added_none)
  from a e s n1 n2 n3 show "\<exists>tp' sim' r'.
      TestProp_apply tp sim t r = Inr (tp', sim', r') \<and>
      scheduled_tests tp' = TestProp_added tp t 0 (people sim) r \<and>
      scheduled_tests tp' \<subseteq> traced (people sim) (people sim') \<and>
      (\<forall>j\<in>scheduled_tests tp. j \<notin> TestProp_added tp t 0 (people sim) r \<longrightarrow>
         j \<notin> scheduled_tests tp') \<and>
      (\<forall>j\<in>scheduled_tests tp. j \<notin> traced (people sim) (people sim') \<longrightarrow>
         j \<notin> scheduled_tests tp') \<and>
      (trace_prob tp = 0 \<or> (\<forall>x\<in>sset r. \<not> x < trace_prob tp) \<longrightarrow>
         scheduled_tests tp' = {})" by blast
next
  from TestProp_apply_ok [OF example_inv, of 0 example_sim example_rng]
  obtain tp1 sim1 r1 where
    a1: "TestProp_apply example_TestProp example_sim 0 example_rng = Inr (tp1, sim1, r1)" and
    i1: "TestProp_inv 3 tp1" by auto
  from TestProp_apply_ok [OF i1, of "Suc 0" sim1 r1]
  obtain tp2 sim2 r2 where
    a2: "TestProp_apply tp1 sim1 (Suc 0) r1 = Inr (tp2, sim2, r2)" and
    i2: "TestProp_inv 3 tp2" by auto
  from TestProp_apply_ok [OF i2, of 2 sim2 r2]
  obtain tp3 sim3 r3 where
    a3: "TestProp_apply tp2 sim2 2 r2 = Inr (tp3, sim3, r3)" by auto
  from example_three_days have
    "1 \<in> scheduled_tests tp1 \<and>
     tested (people sim1 ! 1) (people sim2 ! 1) \<and>
     1 \<notin> scheduled_tests tp2 \<and>
     1 < length (people sim2) \<and>
     \<not> tested (people sim2 ! 1) (people sim3 ! 1)"
    unfolding a1 sum.case prod.case a2 a3 .
  with a1 a2 a3 show "\<exists>tp1 sim1 r1 tp2 sim2 r2 tp3 sim3 r3.
      TestProp_apply example_TestProp example_sim 0 example_rng = Inr (tp1, sim1, r1) \<and>
      1 \<in> scheduled_tests tp1 \<and>
      TestProp_apply tp1 sim1 (Suc 0) r1 = Inr (tp2, sim2, r2) \<and>
      tested (people sim1 ! 1) (people sim2 ! 1) \<and>
      1 \<notin> scheduled_tests tp2 \<and>
      TestProp_apply tp2 sim2 2 r2 = Inr (tp3, sim3, r3) \<and>
      1 < length (people sim2) \<and>
      \<not> tested (people sim2 ! 1) (people sim3 ! 1)" by blast
qed

lemma example_half_inv: "TestProp_inv 3 example_TestProp_half"
  using TestProp_init_inv [of 3 "9/10" 0 "1/2" 1]
  by (simp add: example_TestProp_half_def TestProp_inv_def)

lemma example_half_day:
  "(case TestProp_apply example_TestProp_half example_sim (Suc 0) (sconst (7/10)) of
      Inl e \<Rightarrow> False
    | Inr (tp', sim', r') \<Rightarrow>
        diagnosed (people sim' ! 0) \<and>
        tested (people example_sim ! 0) (people sim' ! 0) \<and>
        contact_inds (people sim' ! 0) = [1] \<and>
        1 \<in> traced (people example_sim) (people sim'))"
  by (simp add: example_TestProp_half_def example_defs TestProp_eval tested_def traced_def)

theorem TestProp_lookahead_witness:
  "TestProp_inv 3 example_TestProp_half \<and> Suc 0 < (3::nat) \<and>
   trace_prob example_TestProp_half = 1/2 \<and> \<not> (7/10 :: real) < 1/2 \<and>
   1 \<in> scheduled_tests example_TestProp_half \<and>
   (\<exists>tp' sim' r'.
      TestProp_apply example_TestProp_half example_sim (Suc 0) (sconst (7/10))
        = Inr (tp', sim', r') \<and>
      diagnosed (people sim' ! 0) \<and>
      contact_inds (people sim' ! 0) = [1] \<and>
      1 \<in> traced (people example_sim) (people sim') \<and>
      1 \<notin> TestProp_added example_TestProp_half (Suc 0) 0 (people example_sim) (sconst (7/10)) \<and>
      1 \<notin> scheduled_tests tp' \<and>
      scheduled_tests tp' = {})"
proof -
  let ?tp = "example_TestProp_half"
  have lt: "Suc 0 < (3::nat)" by simp
  have tp: "trace_prob ?tp = 1/2" and old: "1 \<in> scheduled_tests ?tp"
    by (simp_all add: example_TestProp_half_def TestProp_init_def)
  have no: "trace_prob ?tp = 0 \<or> (\<forall>x\<in>sset (sconst (7/10 :: real)). \<not> x < trace_prob ?tp)"
    unfolding tp by simp
  from TestProp_lookahead [OF example_half_inv lt, of example_sim "sconst (7/10)",
      THEN conjunct1]
  obtain tp' sim' r' where
    a: "TestProp_apply ?tp example_sim (Suc 0) (sconst (7/10)) = Inr (tp', sim', r')" and
    e: "scheduled_tests tp' = TestProp_added ?tp (Suc 0) 0 (people example_sim) (sconst (7/10))" and
    n: "trace_prob ?tp = 0 \<or> (\<forall>x\<in>sset (sconst (7/10 :: real)). \<not> x < trace_prob ?tp) \<longrightarrow>
         scheduled_tests tp' = {}"
    by blast
  from n no have empty: "scheduled_tests tp' = {}" by blast
  with e have na: "1 \<notin> TestProp_added ?tp (Suc 0) 0 (people example_sim) (sconst (7/10))"
    by simp
  from example_half_day a have
    d: "diagnosed (people sim' ! 0)" and c: "contact_inds (people sim' ! 0) = [1]" and
    tr: "1 \<in> traced (people example_sim) (people sim')"
    by simp_all
  from empty have "1 \<notin> scheduled_tests tp'" by simp
  with example_half_inv lt tp old a d c tr na empty show ?thesis by simp
qed

lemma example2_three_days:
  "(case TestProp_apply example_TestProp example_sim2 0 example_rng of
      Inl e \<Rightarrow> False
    | Inr (tp1, sim1, r1) \<Rightarrow>
        (case TestProp_apply tp1 sim1 (Suc 0) r1 of
           Inl e \<Rightarrow> False
         | Inr (tp2, sim2, r2) \<Rightarrow>
             (case TestProp_apply tp2 sim2 2 r2 of
                Inl e \<Rightarrow> False
              | Inr (tp3, sim3, r3) \<Rightarrow>
                  diagnosed (people sim2 ! 0) \<and>
                  0 \<in> scheduled_tests tp2 \<and>
                  series_total (results tp3) ''n_diagnoses'' = 3 \<and>
                  length (filter diagnosed (people sim3)) = 2)))"
  by (simp add: example_defs person_R_def example_sim2_def TestProp_eval series_total_def)

text \<open>
  Claim C10. On a day of the simulation, a person whose index is in the scheduled set
  and who is already diagnosed is tested all the same, is still diagnosed after the
  test and is therefore one of the people that \<open>n_diagnoses[t]\<close> counts that day; and
  when every tracing trial succeeds, all the contacts of that person are in the new
  scheduled set. So the total of \<open>n_diagnoses\<close> can exceed the number of diagnosed
  people: in the second example population it is 3 after three days, with 2 people
  diagnosed.
\<close>

theorem TestProp_recounts_diagnosed:
  assumes "TestProp_inv npts tp" and "t < npts"
    and "i \<in> scheduled_tests tp" and "i < length (people sim)"
    and "diagnosed (people sim ! i)"
  shows "(\<exists>tp' sim' r'.
      TestProp_apply tp sim t r = Inr (tp', sim', r') \<and>
      test_log (people sim' ! i) = (t, test_sensitivity tp) # test_log (people sim ! i) \<and>
      diagnosed (people sim' ! i) \<and>
      i \<in> {k. k < length (people sim) \<and> tested (people sim ! k) (people sim' ! k) \<and>
               diagnosed (people sim' ! k)} \<and>
      series_at (results tp') ''n_diagnoses'' t =
        series_at (results tp) ''n_diagnoses'' t +
        real (card {k. k < length (people sim) \<and> tested (people sim ! k) (people sim' ! k) \<and>
                       diagnosed (people sim' ! k)}) \<and>
      (trace_prob tp \<noteq> 0 \<and> (\<forall>x\<in>sset r. x < trace_prob tp) \<longrightarrow>
         set (contact_inds (people sim ! i)) \<subseteq> scheduled_tests tp')) \<and>
    (\<exists>tp1 sim1 r1 tp2 sim2 r2 tp3 sim3 r3.
      TestProp_apply example_TestProp example_sim2 0 example_rng = Inr (tp1, sim1, r1) \<and>
      TestProp_apply tp1 sim1 (Suc 0) r1 = Inr (tp2, sim2, r2) \<and>
      diagnosed (people sim2 ! 0) \<and> 0 \<in> scheduled_tests tp2 \<and>
      TestProp_apply tp2 sim2 2 r2 = Inr (tp3, sim3, r3) \<and>
      real (length (filter diagnosed (people sim3))) <
        series_total (results tp3) ''n_diagnoses'')"
proof
  from TestProp_apply_ok [OF assms(1,2), of sim r]
  obtain tp' sim' r' where
    a: "TestProp_apply tp sim t r = Inr (tp', sim', r')" and
    len: "length (people sim') = length (people sim)" and
    pw: "\<forall>k<length (people sim).
        (k \<in> scheduled_tests tp \<longrightarrow> tested (people sim ! k) (people sim' ! k)) \<and>
        (tested (people sim ! k) (people sim' ! k) \<longrightarrow>
           test_log (people sim' ! k) = (t, test_sensitivity tp) # test_log (people sim ! k)) \<and>
        (\<not> tested (people sim ! k) (people sim' ! k) \<longrightarrow> people sim' ! k = people sim ! k) \<and>
        contact_inds (people sim' ! k) = contact_inds (people sim ! k) \<and>
        (diagnosed (people sim ! k) \<longrightarrow> diagnosed (people sim' ! k))" and
    nd: "series_at (results tp') ''n_diagnoses'' t =
       series_at (results tp) ''n_diagnoses'' t +
       real (count_diagnosed (people sim) (people sim'))" and
    all: "trace_prob tp \<noteq> 0 \<and> (\<forall>x\<in>sset r. x < trace_prob tp) \<longrightarrow>
        scheduled_tests tp' = traced (people sim) (people sim')"
    by blast
  from pw assms(3,4,5) have
    tst: "tested (people sim ! i) (people sim' ! i)" and
    log: "test_log (people sim' ! i) = (t, test_sensitivity tp) # test_log (people sim ! i)" and
    con: "contact_inds (people sim' ! i) = contact_inds (people sim ! i)" and
    dia: "diagnosed (people sim' ! i)"
    by simp_all
  have mem: "i \<in> {k. k < length (people sim) \<and> tested (people sim ! k) (people sim' ! k) \<and>
               diagnosed (people sim' ! k)}"
    using assms(4) tst dia by simp
  have cnt: "series_at (results tp') ''n_diagnoses'' t =
        series_at (results tp) ''n_diagnoses'' t +
        real (card {k. k < length (people sim) \<and> tested (people sim ! k) (people sim' ! k) \<and>
                       diagnosed (people sim' ! k)})"
    using nd by (simp add: count_diagnosed_card [OF len])
  have tr: "trace_prob tp \<noteq> 0 \<and> (\<forall>x\<in>sset r. x < trace_prob tp) \<longrightarrow>
         set (contact_inds (people sim ! i)) \<subseteq> scheduled_tests tp'"
  proof
    assume "trace_prob tp \<noteq> 0 \<and> (\<forall>x\<in>sset r. x < trace_prob tp)"
    with all have "scheduled_tests tp' = traced (people sim) (people sim')" by blast
    moreover have "set (contact_inds (people sim ! i)) \<subseteq> traced (people sim) (people sim')"
    proof
      fix x assume "x \<in> set (contact_inds (people sim ! i))"
      with con have "x \<in> set (contact_inds (people sim' ! i))" by simp
      with assms(4) tst dia
      have "\<exists>k<length (people sim). tested (people sim ! k) (people sim' ! k) \<and>
              diagnosed (people sim' ! k) \<and> x \<in> set (contact_inds (people sim' ! k))"
        by blast
      then show "x \<in> traced (people sim) (people sim')"
        by (simp add: traced_iff [OF len])
    qed
    ultimately show "set (contact_inds (people sim ! i)) \<subseteq> scheduled_tests tp'" by simp
  qed
  from a log dia mem cnt tr show "\<exists>tp' sim' r'.
      TestProp_apply tp sim t r = Inr (tp', sim', r') \<and>
      test_log (people sim' ! i) = (t, test_sensitivity tp) # test_log (people sim ! i) \<and>
      diagnosed (people sim' ! i) \<and>
      i \<in> {k. k < length (people sim) \<and> tested (people sim ! k) (people sim' ! k) \<and>
               diagnosed (people sim' ! k)} \<and>
      series_at (results tp') ''n_diagnoses'' t =
        series_at (results tp) ''n_diagnoses'' t +
        real (card {k. k < length (people sim) \<and> tested (people sim ! k) (people sim' ! k) \<and>
                       diagnosed (people sim' ! k)}) \<and>
      (trace_prob tp \<noteq> 0 \<and> (\<forall>x\<in>sset r. x < trace_prob tp) \<longrightarrow>
         set (contact_inds (people sim ! i)) \<subseteq> scheduled_tests tp')" by blast
next
  from TestProp_apply_ok [OF example_inv, of 0 example_sim2 example_rng]
  obtain tp1 sim1 r1 where
    a1: "TestProp_apply example_TestProp example_sim2 0 example_rng = Inr (tp1, sim1, r1)" and
    i1: "TestProp_inv 3 tp1" by auto
  from TestProp_apply_ok [OF i1, of "Suc 0" sim1 r1]
  obtain tp2 sim2 r2 where
    a2: "TestProp_apply tp1 sim1 (Suc 0) r1 = Inr (tp2, sim2, r2)" and
    i2: "TestProp_inv 3 tp2" by auto
  from TestProp_apply_ok [OF i2, of 2 sim2 r2]
  obtain tp3 sim3 r3 where
    a3: "TestProp_apply tp2 sim2 2 r2 = Inr (tp3, sim3, r3)" by auto
  from example2_three_days have
    "diagnosed (people sim2 ! 0) \<and> 0 \<in> scheduled_tests tp2 \<and>
     series_total (results tp3) ''n_diagnoses'' = 3 \<and>
     length (filter diagnosed (people sim3)) = 2"
    unfolding a1 sum.case prod.case a2 a3 .
  then have "diagnosed (people sim2 ! 0) \<and> 0 \<in> scheduled_tests tp2 \<and>
      real (length (filter diagnosed (people sim3))) <
        series_total (results tp3) ''n_diagnoses''" by simp
  with a1 a2 a3 show "\<exists>tp1 sim1 r1 tp2 sim2 r2 tp3 sim3 r3.
      TestProp_apply example_TestProp example_sim2 0 example_rng = Inr (tp1, sim1, r1) \<and>
      TestProp_apply tp1 sim1 (Suc 0) r1 = Inr (tp2, sim2, r2) \<and>
      diagnosed (people sim2 ! 0) \<and> 0 \<in> scheduled_tests tp2 \<and>
      TestProp_apply tp2 sim2 2 r2 = Inr (tp3, sim3, r3) \<and>
      real (length (filter diagnosed (people sim3))) <
        series_total (results tp3) ''n_diagnoses''" by blast
qed

theorem TestProp_recounts_diagnosed_witness:
  "TestProp_inv 3 (example_TestProp \<lparr>scheduled_tests := {0}\<rparr>) \<and> (0::nat) < 3 \<and>
   0 \<in> scheduled_tests (example_TestProp \<lparr>scheduled_tests := {0}\<rparr>) \<and>
   0 < length (people (example_sim \<lparr>people := [person_P \<lparr>diagnosed := True\<rparr>, person_Q]\<rparr>)) \<and>
   diagnosed (people (example_sim \<lparr>people := [person_P \<lparr>diagnosed := True\<rparr>, person_Q]\<rparr>) ! 0) \<and>
   (\<exists>tp' sim' r'.
      TestProp_apply (example_TestProp \<lparr>scheduled_tests := {0}\<rparr>)
        (example_sim \<lparr>people := [person_P \<lparr>diagnosed := True\<rparr>, person_Q]\<rparr>) 0 (sconst (1/2))
        = Inr (tp', sim', r') \<and>
      test_log (people sim' ! 0) = [(0, 1)] \<and>
      series_at (results tp') ''n_diagnoses'' 0 = 1 \<and>
      1 \<in> scheduled_tests tp')"
proof -
  let ?tp = "example_TestProp \<lparr>scheduled_tests := {0}\<rparr>"
  let ?sim = "example_sim \<lparr>people := [person_P \<lparr>diagnosed := True\<rparr>, person_Q]\<rparr>"
  have inv: "TestProp_inv 3 ?tp"
    using example_inv by (simp add: TestProp_inv_def)
  have lt: "(0::nat) < 3" by simp
  have s: "0 \<in> scheduled_tests ?tp" by simp
  have l: "0 < length (people ?sim)" by simp
  have d: "diagnosed (people ?sim ! 0)" by simp
  from TestProp_recounts_diagnosed [OF inv lt s l d, of "sconst (1/2)", THEN conjunct1]
  obtain tp' sim' r' where
    a: "TestProp_apply ?tp ?sim 0 (sconst (1/2)) = Inr (tp', sim', r')" and
    log: "test_log (people sim' ! 0) = (0, test_sensitivity ?tp) # test_log (people ?sim ! 0)" and
    tr: "trace_prob ?tp \<noteq> 0 \<and> (\<forall>x\<in>sset (sconst (1/2 :: real)). x < trace_prob ?tp) \<longrightarrow>
         set (contact_inds (people ?sim ! 0)) \<subseteq> scheduled_tests tp'"
    by blast
  have p: "trace_prob ?tp = 1" "test_sensitivity ?tp = 1"
    "contact_inds (people ?sim ! 0) = [1]" "test_log (people ?sim ! 0) = []"
    by (simp_all add: example_defs)
  from tr have "1 \<in> scheduled_tests tp'" unfolding p by simp
  moreover from log have "test_log (people sim' ! 0) = [(0, 1)]" unfolding p by simp
  moreover have "(case TestProp_apply ?tp ?sim 0 (sconst (1/2)) of
           Inl e \<Rightarrow> False
         | Inr (tp', sim', r') \<Rightarrow> series_at (results tp') ''n_diagnoses'' 0 = 1)"
    by (simp add: example_defs TestProp_eval series_at_def)
  with a have "series_at (results tp') ''n_diagnoses'' 0 = 1" by simp
  ultimately show ?thesis using a inv lt s l d by blast
qed

subsection \<open>The export to JSON\<close>

lemmas to_json_defs =
  ChangeBeta_to_json_def TestNum_to_json_def TestProp_to_json_def Intervention_to_json_def
  ChangeBeta_dict_def TestNum_dict_def TestProp_dict_def

text \<open>
  Claim C8, as the spec states it, fails: \<open>npts\<close> is a parameter of the constructor of
  TestNum, and the export of a TestNum has no entry for it.
\<close>

theorem TestNum_to_json_no_npts:
  "''npts'' \<in> set TestNum_params \<and>
   map_of (TestNum_to_json (TestNum_init 3 [Tests 2, Tests 2, Tests 2] 100 1 1)) ''npts'' = None"
  by (simp add: to_json_defs TestNum_params_def)

text \<open>
  Claim C8, amended. The export of every instance has an entry for each parameter of
  the constructor that the constructor stores as an attribute, holding the stored
  value: \<open>days\<close> and \<open>changes\<close> for ChangeBeta; \<open>daily_tests\<close>, \<open>sympt_test\<close>,
  \<open>trace_test\<close> and \<open>sensitivity\<close> for TestNum; the three probabilities and
  \<open>test_sensitivity\<close> for TestProp. It has no entry for \<open>npts\<close>, which the constructors
  of TestNum and TestProp pass on to the result series only. Its entry
  \<open>InterventionType\<close> is the name of the class, and the three names differ.
\<close>

theorem to_json_fields:
  "(\<forall>k\<in>set ChangeBeta_params. map_of (ChangeBeta_to_json cb) k \<noteq> None) \<and>
   (\<forall>k\<in>set TestNum_params. k \<noteq> ''npts'' \<longrightarrow> map_of (TestNum_to_json tn) k \<noteq> None) \<and>
   (\<forall>k\<in>set TestProp_params. k \<noteq> ''npts'' \<longrightarrow> map_of (TestProp_to_json tp) k \<noteq> None) \<and>
   map_of (TestNum_to_json tn) ''npts'' = None \<and>
   map_of (TestProp_to_json tp) ''npts'' = None \<and>
   map_of (ChangeBeta_to_json cb) ''days'' = Some (PNdarray (map PInt (days cb))) \<and>
   map_of (ChangeBeta_to_json cb) ''changes'' = Some (PNdarray (map PFloat (changes cb))) \<and>
   map_of (TestNum_to_json tn) ''daily_tests'' =
     Some (PList (map num_tests_val (daily_tests tn))) \<and>
   map_of (TestNum_to_json tn) ''sympt_test'' = Some (PFloat (sympt_test tn)) \<and>
   map_of (TestNum_to_json tn) ''trace_test'' = Some (PFloat (trace_test tn)) \<and>
   map_of (TestNum_to_json tn) ''sensitivity'' = Some (PFloat (sensitivity tn)) \<and>
   map_of (TestProp_to_json tp) ''symptomatic_prob'' = Some (PFloat (symptomatic_prob tp)) \<and>
   map_of (TestProp_to_json tp) ''asymptomatic_prob'' = Some (PFloat (asymptomatic_prob tp)) \<and>
   map_of (TestProp_to_json tp) ''trace_prob'' = Some (PFloat (trace_prob tp)) \<and>
   map_of (TestProp_to_json tp) ''test_sensitivity'' = Some (PFloat (test_sensitivity tp)) \<and>
   map_of (ChangeBeta_to_json cb) ''InterventionType'' = Some (PStr ''ChangeBeta'') \<and>
   map_of (TestNum_to_json tn) ''InterventionType'' = Some (PStr ''TestNum'') \<and>
   map_of (TestProp_to_json tp) ''InterventionType'' = Some (PStr ''TestProp'') \<and>
   map_of (ChangeBeta_to_json cb) ''InterventionType'' \<noteq>
     map_of (TestNum_to_json tn) ''InterventionType'' \<and>
   map_of (ChangeBeta_to_json cb) ''InterventionType'' \<noteq>
     map_of (TestProp_to_json tp) ''InterventionType'' \<and>
   map_of (TestNum_to_json tn) ''InterventionType'' \<noteq>
     map_of (TestProp_to_json tp) ''InterventionType''"
  by (simp add: to_json_defs ChangeBeta_params_def TestNum_params_def TestProp_params_def)

theorem to_json_fields_witness:
  "''sympt_test'' \<in> set TestNum_params \<and> ''sympt_test'' \<noteq> ''npts'' \<and>
   map_of (TestNum_to_json (TestNum_init 3 [Tests 2, Tests 2, Tests 2] 100 1 1)) ''sympt_test''
     = Some (PFloat 100) \<and>
   ''days'' \<in> set ChangeBeta_params \<and>
   map_of (ChangeBeta_to_json
      \<lparr>results = Map.empty, days = [14, 28], changes = [7/10, 1], orig_beta = None\<rparr>) ''days''
     = Some (PNdarray [PInt 14, PInt 28]) \<and>
   ''trace_prob'' \<in> set TestProp_params \<and> ''trace_prob'' \<noteq> ''npts'' \<and>
   map_of (TestProp_to_json example_TestProp) ''trace_prob'' = Some (PFloat 1) \<and>
   map_of (TestProp_to_json example_TestProp) ''InterventionType'' = Some (PStr ''TestProp'')"
proof -
  note th = to_json_fields [of
      "\<lparr>results = Map.empty, days = [14, 28], changes = [7/10, 1], orig_beta = None\<rparr>"
      "TestNum_init 3 [Tests 2, Tests 2, Tests 2] 100 1 1" example_TestProp]
  have m: "''sympt_test'' \<in> set TestNum_params" "''sympt_test'' \<noteq> ''npts''"
    "''days'' \<in> set ChangeBeta_params"
    "''trace_prob'' \<in> set TestProp_params" "''trace_prob'' \<noteq> ''npts''"
    by (simp_all add: ChangeBeta_params_def TestNum_params_def TestProp_params_def)
  have v: "sympt_test (TestNum_init 3 [Tests 2, Tests 2, Tests 2] 100 1 1) = 100"
    "trace_prob example_TestProp = 1"
    by (simp_all add: TestNum_init_def example_defs)
  from th have
    "map_of (TestNum_to_json (TestNum_init 3 [Tests 2, Tests 2, Tests 2] 100 1 1)) ''sympt_test''
       = Some (PFloat (sympt_test (TestNum_init 3 [Tests 2, Tests 2, Tests 2] 100 1 1)))"
    "map_of (ChangeBeta_to_json
      \<lparr>results = Map.empty, days = [14, 28], changes = [7/10, 1], orig_beta = None\<rparr>) ''days''
     = Some (PNdarray (map PInt (days
      \<lparr>results = Map.empty, days = [14, 28], changes = [7/10, 1], orig_beta = None\<rparr>)))"
    "map_of (TestProp_to_json example_TestProp) ''trace_prob''
       = Some (PFloat (trace_prob example_TestProp))"
    "map_of (TestProp_to_json example_TestProp) ''InterventionType'' = Some (PStr ''TestProp'')"
    by blast+
  with m v show ?thesis by simp
qed

text \<open>
  Claim C9 holds of the documentation and fails on the code. TestProp defines no
  \<^verbatim>\<open>to_json\<close>: the export of a TestProp is the default dump of its attributes, its
  entry \<open>scheduled_tests\<close> is the set itself, and \<^verbatim>\<open>json.dumps\<close> cannot serialize it.
\<close>

theorem TestProp_to_json_not_serializable:
  "TestProp_to_json (TestProp_init 1 (9/10) (1/100) 1 1) =
     Intervention_to_json (TestProp_dict (TestProp_init 1 (9/10) (1/100) 1 1)) ''TestProp'' \<and>
   map_of (TestProp_to_json (TestProp_init 1 (9/10) (1/100) 1 1)) ''scheduled_tests''
     = Some (PSet {}) \<and>
   \<not> json_serializable (PSet {}) \<and>
   \<not> json_serializable (PDict (TestProp_to_json (TestProp_init 1 (9/10) (1/100) 1 1)))"
  by (simp add: to_json_defs TestProp_init_def)

subsection \<open>TestNum: the weights and their normalization\<close>

lemma test_weight_diagnosed: "diagnosed p \<Longrightarrow> test_weight tn p = 0"
  by (simp add: test_weight_def)

lemma test_weight_nonneg:
  "0 \<le> sympt_test tn \<Longrightarrow> 0 \<le> trace_test tn \<Longrightarrow> 0 \<le> test_weight tn p"
  by (simp add: test_weight_def)

lemma test_weights_length [simp]: "length (test_weights tn ps) = length ps"
  by (simp add: test_weights_def)

lemma test_weights_nth: "k < length ps \<Longrightarrow> test_weights tn ps ! k = test_weight tn (ps ! k)"
  by (simp add: test_weights_def)

lemma sum_list_pos:
  fixes ws :: "real list"
  assumes "\<forall>w\<in>set ws. 0 \<le> w" and "\<exists>w\<in>set ws. 0 < w"
  shows "0 < sum_list ws"
  using assms
proof (induction ws)
  case Nil
  then show ?case by simp
next
  case (Cons w ws)
  from Cons.prems(1) have nn: "0 \<le> w" "0 \<le> sum_list ws"
    by (simp_all add: sum_list_nonneg)
  show ?case
  proof (cases "0 < w")
    case True
    with nn show ?thesis by simp
  next
    case False
    with Cons.prems(2) have "\<exists>v\<in>set ws. 0 < v" by auto
    with Cons.IH Cons.prems(1) have "0 < sum_list ws" by simp
    with nn show ?thesis by simp
  qed
qed

lemma sum_list_zero:
  fixes ws :: "real list"
  shows "\<forall>w\<in>set ws. w = 0 \<Longrightarrow> sum_list ws = 0"
  by (induction ws) simp_all

lemma sum_list_upper:
  fixes ws :: "real list"
  assumes "\<forall>w\<in>set ws. 0 \<le> w" and "k < length ws"
  shows "ws ! k \<le> sum_list ws"
  using assms
proof (induction ws arbitrary: k)
  case Nil
  then show ?case by simp
next
  case (Cons w ws)
  from Cons.prems(1) have nn: "0 \<le> w" "0 \<le> sum_list ws"
    by (simp_all add: sum_list_nonneg)
  show ?case
  proof (cases k)
    case 0
    with nn show ?thesis by simp
  next
    case (Suc j)
    with Cons.prems have "ws ! j \<le> sum_list ws" by (intro Cons.IH) simp_all
    with Suc nn show ?thesis by simp
  qed
qed

lemma normalize_length [simp]: "length (normalize ws) = length ws"
  by (simp add: normalize_def)

lemma normalize_nth:
  "k < length ws \<Longrightarrow> normalize ws ! k = float_div (ws ! k) (sum_list ws)"
  by (simp add: normalize_def)



lemma normalize_all_zero:
  assumes "\<forall>w\<in>set ws. w = 0"
  shows "normalize ws = replicate (length ws) NaN"
proof -
  from assms have s: "sum_list ws = 0" by (rule sum_list_zero)
  have "map (\<lambda>w. float_div w 0) ws = map (\<lambda>w. NaN) ws"
  proof (rule map_cong)
    show "ws = ws" by (rule refl)
  next
    fix w assume "w \<in> set ws"
    with assms have "w = 0" by blast
    then show "float_div w 0 = NaN" by (simp add: float_div_def)
  qed
  then show ?thesis by (simp add: normalize_def s map_replicate_const)
qed

text \<open>
  Claim C7, as the spec states it, fails: with a negative \<open>sympt_test\<close> a person can
  have a positive weight while the weights sum to zero. Here \<open>Q\<close> has weight 1 and the
  symptomatic \<open>P\<close> weight -1; the division is a division by zero and leaves an
  infinity for each of them, not a probability.
\<close>

theorem TestNum_normalize_negative_weight:
  "test_weights (TestNum_init 3 [Tests 1, Tests 1, Tests 1] (- 1) 1 1)
     [person_Q, person_P] = [1, - 1] \<and>
   0 < test_weights (TestNum_init 3 [Tests 1, Tests 1, Tests 1] (- 1) 1 1)
         [person_Q, person_P] ! 0 \<and>
   sum_list (test_weights (TestNum_init 3 [Tests 1, Tests 1, Tests 1] (- 1) 1 1)
               [person_Q, person_P]) = 0 \<and>
   normalize (test_weights (TestNum_init 3 [Tests 1, Tests 1, Tests 1] (- 1) 1 1)
                [person_Q, person_P]) = [PosInf, NegInf]"
  by (simp add: normalize_def float_div_def test_weights_def test_weight_def
      TestNum_init_def person_P_def person_Q_def)

text \<open>
  Claim C7, amended. When \<open>sympt_test\<close> and \<open>trace_test\<close> are not negative and at least
  one person has a positive weight, the sum of the weights is positive, so that no
  entry is divided by zero: the division leaves as many entries as people, each the
  weight of its person divided by the sum, a number from 0 to 1. The division is not
  guarded and raises nothing: when every weight is zero, as when everybody is
  diagnosed, the sum is zero, every entry is the \<open>nan\<close> of zero divided by zero, and
  on a day with tests \<open>apply\<close> hands that array to the drawing.
\<close>

theorem TestNum_normalize_safety:
  "(0 \<le> sympt_test tn \<and> 0 \<le> trace_test tn \<and>
      (\<exists>w\<in>set (test_weights tn (people sim)). 0 < w) \<longrightarrow>
      0 < sum_list (test_weights tn (people sim)) \<and>
      length (normalize (test_weights tn (people sim))) = length (people sim) \<and>
      (\<forall>k<length (people sim).
         normalize (test_weights tn (people sim)) ! k =
           Finite (test_weight tn (people sim ! k) / sum_list (test_weights tn (people sim))) \<and>
         0 \<le> test_weight tn (people sim ! k) / sum_list (test_weights tn (people sim)) \<and>
         test_weight tn (people sim ! k) / sum_list (test_weights tn (people sim)) \<le> 1)) \<and>
   ((\<forall>p\<in>set (people sim). diagnosed p) \<longrightarrow>
      (\<forall>w\<in>set (test_weights tn (people sim)). w = 0)) \<and>
   ((\<forall>w\<in>set (test_weights tn (people sim)). w = 0) \<longrightarrow>
      sum_list (test_weights tn (people sim)) = 0 \<and>
      normalize (test_weights tn (people sim)) = replicate (length (people sim)) NaN \<and>
      (t < length (daily_tests tn) \<and> daily_tests tn ! t = Tests n \<and> n \<noteq> 0 \<longrightarrow>
         TestNum_apply tn sim t r =
           (let (test_inds, r') =
                  choose_people_weighted (replicate (length (people sim)) NaN) n r
            in case TestNum_tests tn t test_inds (people sim) (results tn) r' of
                 Inl e \<Rightarrow> Inl e
               | Inr (ps, rs, r'') \<Rightarrow> Inr (tn\<lparr>results := rs\<rparr>, sim\<lparr>people := ps\<rparr>, r''))))"
proof (intro conjI impI allI)
  let ?ws = "test_weights tn (people sim)"
  assume a: "0 \<le> sympt_test tn \<and> 0 \<le> trace_test tn \<and> (\<exists>w\<in>set ?ws. 0 < w)"
  then have nn: "\<forall>w\<in>set ?ws. 0 \<le> w"
    by (auto simp: test_weights_def test_weight_nonneg)
  from sum_list_pos [OF nn] a show s: "0 < sum_list ?ws" by blast
  show "length (normalize ?ws) = length (people sim)" by simp
  fix k assume k: "k < length (people sim)"
  then have wk: "?ws ! k = test_weight tn (people sim ! k)" by (rule test_weights_nth)
  from k have "normalize ?ws ! k = float_div (?ws ! k) (sum_list ?ws)"
    by (simp add: normalize_nth)
  with s wk show "normalize ?ws ! k = Finite (test_weight tn (people sim ! k) / sum_list ?ws)"
    by (simp add: float_div_def)
  from a have "0 \<le> test_weight tn (people sim ! k)" by (simp add: test_weight_nonneg)
  with s show "0 \<le> test_weight tn (people sim ! k) / sum_list ?ws" by simp
  from sum_list_upper [OF nn, of k] k wk
  have "test_weight tn (people sim ! k) \<le> sum_list ?ws" by simp
  with s show "test_weight tn (people sim ! k) / sum_list ?ws \<le> 1" by simp
next
  assume "\<forall>p\<in>set (people sim). diagnosed p"
  then show "\<forall>w\<in>set (test_weights tn (people sim)). w = 0"
    by (auto simp: test_weights_def test_weight_diagnosed)
next
  assume "\<forall>w\<in>set (test_weights tn (people sim)). w = 0"
  then show "sum_list (test_weights tn (people sim)) = 0" by (rule sum_list_zero)
next
  assume "\<forall>w\<in>set (test_weights tn (people sim)). w = 0"
  from normalize_all_zero [OF this]
  show "normalize (test_weights tn (people sim)) = replicate (length (people sim)) NaN"
    by simp
next
  assume z: "\<forall>w\<in>set (test_weights tn (people sim)). w = 0"
    and b: "t < length (daily_tests tn) \<and> daily_tests tn ! t = Tests n \<and> n \<noteq> 0"
  from normalize_all_zero [OF z]
  have "normalize (test_weights tn (people sim)) = replicate (length (people sim)) NaN"
    by simp
  with b show "TestNum_apply tn sim t r =
           (let (test_inds, r') =
                  choose_people_weighted (replicate (length (people sim)) NaN) n r
            in case TestNum_tests tn t test_inds (people sim) (results tn) r' of
                 Inl e \<Rightarrow> Inl e
               | Inr (ps, rs, r'') \<Rightarrow> Inr (tn\<lparr>results := rs\<rparr>, sim\<lparr>people := ps\<rparr>, r''))"
    by (simp add: TestNum_apply_def)
qed

theorem TestNum_normalize_safety_witness:
  "(0 \<le> sympt_test (TestNum_init 3 [Tests 1, Tests 1, Tests 1] 100 1 1) \<and>
    0 \<le> trace_test (TestNum_init 3 [Tests 1, Tests 1, Tests 1] 100 1 1) \<and>
    0 < test_weights (TestNum_init 3 [Tests 1, Tests 1, Tests 1] 100 1 1)
          (people example_sim) ! 0) \<and>
   sum_list (test_weights (TestNum_init 3 [Tests 1, Tests 1, Tests 1] 100 1 1)
               (people example_sim)) = 101 \<and>
   normalize (test_weights (TestNum_init 3 [Tests 1, Tests 1, Tests 1] 100 1 1)
                (people example_sim)) ! 0 = Finite (100 / 101) \<and>
   normalize (test_weights (TestNum_init 3 [Tests 1, Tests 1, Tests 1] 100 1 1)
                (people example_sim)) ! 1 = Finite (1 / 101) \<and>
   diagnosed (person_P \<lparr>diagnosed := True\<rparr>) \<and>
   normalize (test_weights (TestNum_init 3 [Tests 1, Tests 1, Tests 1] 100 1 1)
                (people (example_sim \<lparr>people := [person_P \<lparr>diagnosed := True\<rparr>]\<rparr>))) = [NaN]"
proof -
  let ?tn = "TestNum_init 3 [Tests 1, Tests 1, Tests 1] 100 1 1"
  let ?sim = "example_sim \<lparr>people := [person_P \<lparr>diagnosed := True\<rparr>]\<rparr>"
  have w: "test_weights ?tn (people example_sim) = [100, 1]"
    by (simp add: test_weights_def test_weight_def TestNum_init_def example_defs)
  have tw: "test_weight ?tn (people example_sim ! 0) = 100"
    "test_weight ?tn (people example_sim ! 1) = 1"
    by (simp_all add: test_weight_def TestNum_init_def example_defs)
  have len: "length (people example_sim) = 2" by (simp add: example_defs)
  have h1: "0 \<le> sympt_test ?tn \<and> 0 \<le> trace_test ?tn \<and>
      (\<exists>w\<in>set (test_weights ?tn (people example_sim)). 0 < w)"
    unfolding w by (simp add: TestNum_init_def)
  note c1 = TestNum_normalize_safety [of ?tn example_sim 0 1 "sconst (1/2)", THEN conjunct1,
      THEN mp, OF h1]
  from c1 have e: "\<forall>k<length (people example_sim).
         normalize (test_weights ?tn (people example_sim)) ! k =
           Finite (test_weight ?tn (people example_sim ! k) /
                   sum_list (test_weights ?tn (people example_sim)))"
    by blast
  have s: "sum_list (test_weights ?tn (people example_sim)) = 101"
    unfolding w by simp
  from e [THEN spec, of 0] len
  have n0: "normalize (test_weights ?tn (people example_sim)) ! 0 = Finite (100 / 101)"
    unfolding s tw by simp
  from e [THEN spec, of 1] len
  have n1: "normalize (test_weights ?tn (people example_sim)) ! 1 = Finite (1 / 101)"
    unfolding s tw by simp
  have d: "\<forall>p\<in>set (people ?sim). diagnosed p" by simp
  note th = TestNum_normalize_safety [of ?tn ?sim 0 1 "sconst (1/2)"]
  from th [THEN conjunct2, THEN conjunct1, THEN mp, OF d]
  have z: "\<forall>w\<in>set (test_weights ?tn (people ?sim)). w = 0" .
  from th [THEN conjunct2, THEN conjunct2, THEN mp, OF z, THEN conjunct2, THEN conjunct1]
  have nan: "normalize (test_weights ?tn (people ?sim)) = [NaN]" by simp
  have "0 \<le> sympt_test ?tn" "0 \<le> trace_test ?tn" "0 < test_weights ?tn (people example_sim) ! 0"
    unfolding w by (simp_all add: TestNum_init_def)
  with s n0 n1 nan show ?thesis by simp
qed

subsection \<open>TestNum: the sampling\<close>





















end
